(* ===== verification/Prelude.thy ===== *)
theory Prelude
  imports Main
begin

text \<open>
  Shared vocabulary of the development: the collections of evaluation rules the
  component theories add to, decimal printing and parsing of natural numbers
  (the digits that \<open>Number.prototype.toString\<close>, the \<open>Intl\<close> formats and the ISO
  date strings consist of), and the round-trip laws between them that the date
  formatting proofs rest on.
\<close>

named_theorems calendar_simps "evaluation rules of the ECMAScript calendar arithmetic"
named_theorems js_simps "evaluation rules of the JavaScript value and Date model"

section \<open>Decimal digits\<close>

definition digit_char :: "nat \<Rightarrow> char" where
  "digit_char n = ''0123456789'' ! n"

definition digit_val :: "char \<Rightarrow> nat option" where
  "digit_val c = (let k = (of_char c :: nat) in if 48 \<le> k \<and> k \<le> 57 then Some (k - 48) else None)"

text \<open>The shortest decimal representation of a natural number (no leading zeros).\<close>

fun nat_dec :: "nat \<Rightarrow> string" where
  "nat_dec n = (if n < 10 then [digit_char n] else nat_dec (n div 10) @ [digit_char (n mod 10)])"

declare nat_dec.simps [simp del]

text \<open>The last \<open>w\<close> decimal digits of a number, with leading zeros (a 2-digit field).\<close>

fun dec_fixed :: "nat \<Rightarrow> nat \<Rightarrow> string" where
  "dec_fixed 0 n = []"
| "dec_fixed (Suc w) n = dec_fixed w (n div 10) @ [digit_char (n mod 10)]"

text \<open>\<open>ToZeroPaddedDecimalString(n, w)\<close>: the decimal digits of \<open>n\<close>, padded on
  the left with zeros to at least \<open>w\<close> characters.\<close>

definition pad_dec :: "nat \<Rightarrow> nat \<Rightarrow> string" where
  "pad_dec w n = replicate (w - length (nat_dec n)) CHR ''0'' @ nat_dec n"

text \<open>Reading a run of decimal digits, most significant first.\<close>

fun digits_acc :: "nat \<Rightarrow> string \<Rightarrow> nat option" where
  "digits_acc a [] = Some a"
| "digits_acc a (c # cs) = (case digit_val c of None \<Rightarrow> None | Some k \<Rightarrow> digits_acc (10 * a + k) cs)"

definition digits_val :: "string \<Rightarrow> nat option" where
  "digits_val s = (if s = [] then None else digits_acc 0 s)"

text \<open>Signed decimal representation, as \<open>String(n)\<close> prints an integral number.\<close>

definition int_dec :: "int \<Rightarrow> string" where
  "int_dec i = (if i < 0 then CHR ''-'' # nat_dec (nat (- i)) else nat_dec (nat i))"

section \<open>Small integer ranges\<close>

text \<open>Month numbers range over \<open>0..11\<close>; facts about all of them go by cases.\<close>

lemma month_range_cases:
  "0 \<le> (m::int) \<Longrightarrow> m \<le> 11 \<Longrightarrow> m \<in> {0, 1, 2, 3, 4, 5, 6, 7, 8, 9, 10, 11}"
proof -
  assume "0 \<le> m" "m \<le> 11"
  then have "m \<in> {0..11}" by simp
  also have "{0..11::int} = {0, 1, 2, 3, 4, 5, 6, 7, 8, 9, 10, 11}" by code_simp
  finally show ?thesis .
qed

section \<open>Lemmas on digits\<close>

lemma digit_val_digit_char [simp]: "n < 10 \<Longrightarrow> digit_val (digit_char n) = Some n"
proof -
  assume "n < 10"
  then have "n \<in> {0, 1, 2, 3, 4, 5, 6, 7, 8, 9}" by auto
  then show ?thesis by (auto simp add: digit_val_def digit_char_def)
qed

lemma digit_char_inj [simp]:
  "n < 10 \<Longrightarrow> m < 10 \<Longrightarrow> digit_char n = digit_char m \<longleftrightarrow> n = m"
  by (metis digit_val_digit_char option.inject)

lemma digit_val_minus [simp]: "digit_val CHR ''-'' = None"
  by (simp add: digit_val_def)

lemma digit_char_not_minus [simp]: "n < 10 \<Longrightarrow> digit_char n \<noteq> CHR ''-''"
  by (metis digit_val_digit_char digit_val_minus option.distinct(1))

lemma digits_acc_append:
  "digits_acc a (xs @ ys) = (case digits_acc a xs of None \<Rightarrow> None | Some b \<Rightarrow> digits_acc b ys)"
  by (induction a xs rule: digits_acc.induct) (auto split: option.splits)

lemma nat_dec_nonempty [simp]: "nat_dec n \<noteq> []"
  by (subst nat_dec.simps) simp

lemma digits_acc_nat_dec:
  "digits_acc a (nat_dec n) = Some (a * 10 ^ length (nat_dec n) + n)"
proof (induction n arbitrary: a rule: nat_dec.induct)
  case (1 n)
  show ?case
  proof (cases "n < 10")
    case True
    then show ?thesis by (simp add: nat_dec.simps [of n])
  next
    case False
    let ?L = "length (nat_dec (n div 10))"
    have "digits_acc a (nat_dec n) = digits_acc (a * 10 ^ ?L + n div 10) [digit_char (n mod 10)]"
      using False "1.IH" by (simp add: nat_dec.simps [of n] digits_acc_append)
    also have "\<dots> = Some (a * 10 ^ Suc ?L + n)"
      by (simp add: algebra_simps)
    finally show ?thesis using False by (simp add: nat_dec.simps [of n])
  qed
qed

lemma digits_val_nat_dec [simp]: "digits_val (nat_dec n) = Some n"
  by (simp add: digits_val_def digits_acc_nat_dec)

lemma nat_dec_inj [simp]: "nat_dec n = nat_dec m \<longleftrightarrow> n = m"
  by (metis digits_val_nat_dec option.inject)

lemma length_dec_fixed [simp]: "length (dec_fixed w n) = w"
  by (induction w arbitrary: n) auto

lemma digits_acc_dec_fixed:
  "digits_acc a (dec_fixed w n) = Some (a * 10 ^ w + n mod 10 ^ w)"
proof (induction w arbitrary: a n)
  case 0
  then show ?case by simp
next
  case (Suc w)
  have eq: "10 * (n div 10 mod 10 ^ w) + n mod 10 = n mod 10 ^ Suc w"
    by (simp add: mod_mult2_eq mult.commute)
  have "digits_acc a (dec_fixed (Suc w) n) = Some (10 * (a * 10 ^ w + n div 10 mod 10 ^ w) + n mod 10)"
    using Suc.IH by (simp add: digits_acc_append)
  then show ?case by (simp only: eq distrib_left add.assoc) (simp add: algebra_simps)
qed

lemma dec_fixed_Nil_iff [simp]: "dec_fixed w n = [] \<longleftrightarrow> w = 0"
  by (metis length_dec_fixed length_0_conv dec_fixed.simps(1))

lemma digits_val_dec_fixed [simp]: "0 < w \<Longrightarrow> digits_val (dec_fixed w n) = Some (n mod 10 ^ w)"
  by (simp add: digits_val_def digits_acc_dec_fixed)

lemma dec_fixed_inj:
  "0 < w \<Longrightarrow> n < 10 ^ w \<Longrightarrow> m < 10 ^ w \<Longrightarrow> dec_fixed w n = dec_fixed w m \<longleftrightarrow> n = m"
  by (metis digits_val_dec_fixed mod_less option.inject)

lemma nat_dec_small: "n < 10 \<Longrightarrow> nat_dec n = [digit_char n]"
  by (simp add: nat_dec.simps [of n])

lemma nat_dec_large: "10 \<le> n \<Longrightarrow> nat_dec n = nat_dec (n div 10) @ [digit_char (n mod 10)]"
  by (simp add: nat_dec.simps [of n])

lemma dec_fixed_pos: "0 < w \<Longrightarrow> dec_fixed w n = dec_fixed (w - 1) (n div 10) @ [digit_char (n mod 10)]"
  by (cases w) simp_all

text \<open>Rules that evaluate the printers on numerals by \<open>simp\<close>.\<close>

lemmas dec_eval = nat_dec_small nat_dec_large dec_fixed_pos digit_char_def pad_dec_def int_dec_def

lemma int_dec_nonneg [simp]: "0 \<le> i \<Longrightarrow> int_dec i = nat_dec (nat i)"
  by (simp add: int_dec_def)

lemma set_nat_dec_digits: "c \<in> set (nat_dec n) \<Longrightarrow> digit_val c \<noteq> None"
proof (induction n rule: nat_dec.induct)
  case (1 n)
  then show ?case by (cases "n < 10") (auto simp add: nat_dec.simps [of n])
qed

lemma set_dec_fixed_digits: "c \<in> set (dec_fixed w n) \<Longrightarrow> digit_val c \<noteq> None"
  by (induction w arbitrary: n) auto

lemma nat_dec_no_minus [simp]: "CHR ''-'' \<notin> set (nat_dec n)"
  using set_nat_dec_digits by fastforce

lemma dec_fixed_no_minus [simp]: "CHR ''-'' \<notin> set (dec_fixed w n)"
  using set_dec_fixed_digits by fastforce

lemma nat_dec_dec_fixed:
  "0 < w \<Longrightarrow> 10 ^ (w - 1) \<le> n \<Longrightarrow> n < 10 ^ w \<Longrightarrow> nat_dec n = dec_fixed w n"
proof (induction w arbitrary: n)
  case 0
  then show ?case by simp
next
  case (Suc w)
  show ?case
  proof (cases w)
    case 0
    with Suc.prems show ?thesis by (simp add: nat_dec.simps [of n])
  next
    case (Suc w')
    with Suc.prems have ge: "10 \<le> n"
      by (metis One_nat_def diff_Suc_1 le_trans one_le_power power_Suc mult_le_mono2
          nat_mult_1_right one_le_numeral)
    have "10 ^ (w - 1) \<le> n div 10"
      using Suc.prems \<open>w = Suc w'\<close> by (simp add: less_eq_div_iff_mult_less_eq mult.commute)
    moreover have "n div 10 < 10 ^ w"
      using Suc.prems by (simp add: div_less_iff_less_mult mult.commute)
    ultimately have "nat_dec (n div 10) = dec_fixed w (n div 10)"
      using Suc.IH \<open>w = Suc w'\<close> by simp
    with ge show ?thesis by (simp add: nat_dec.simps [of n])
  qed
qed

text \<open>Splitting a string at its first separator.\<close>

lemma append_sep_eq:
  assumes "c \<notin> set xs" "c \<notin> set xs'"
  shows "xs @ c # ys = xs' @ c # ys' \<longleftrightarrow> xs = xs' \<and> ys = ys'"
  using assms
proof (induction xs arbitrary: xs')
  case Nil
  then show ?case by (cases xs') auto
next
  case (Cons x xs)
  then show ?case by (cases xs') auto
qed

end
