(* ===== verification/Calendar.thy ===== *)
theory Calendar
  imports Prelude
begin

text \<open>
  The time arithmetic of ECMAScript (ECMA-262, section 21.4.1) on which every
  \<open>Date\<close> method the sources call is defined: a time value is a number of
  milliseconds since 1970-01-01T00:00:00Z; \<open>Day\<close>, \<open>TimeWithinDay\<close>,
  \<open>DayFromYear\<close>, \<open>YearFromTime\<close>, \<open>MonthFromTime\<close>, \<open>DateFromTime\<close>,
  \<open>WeekDay\<close>, \<open>MakeDay\<close>, \<open>MakeDate\<close> and \<open>TimeClip\<close>, with their names
  kept. The standard defines \<open>YearFromTime\<close> as the largest year whose first
  millisecond is not after the time value and \<open>MakeDay\<close> by "find a time value
  with this year, month and date"; here both are computed (a year search that
  terminates, a table of month starts) and the lemmas show that they meet the
  standard's characterisation. The main results are the two calendar round
  trips: \<open>MakeDay\<close> of the year, month and date of a day gives that day back, and
  the year, month and date of \<open>MakeDay y m d\<close> are \<open>y\<close>, \<open>m\<close>, \<open>d\<close> for a
  valid calendar date.
\<close>

section \<open>Days and years\<close>

definition ms_per_day :: int where
  "ms_per_day = 86400000"

definition day :: "int \<Rightarrow> int" where
  "day t = t div ms_per_day"

definition time_within_day :: "int \<Rightarrow> int" where
  "time_within_day t = t mod ms_per_day"

definition days_in_year :: "int \<Rightarrow> int" where
  "days_in_year y =
     (if y mod 4 \<noteq> 0 then 365 else if y mod 100 \<noteq> 0 then 366
      else if y mod 400 \<noteq> 0 then 365 else 366)"

definition day_from_year :: "int \<Rightarrow> int" where
  "day_from_year y =
     365 * (y - 1970) + (y - 1969) div 4 - (y - 1901) div 100 + (y - 1601) div 400"

definition time_from_year :: "int \<Rightarrow> int" where
  "time_from_year y = ms_per_day * day_from_year y"

lemma div_succ_int:
  fixes a k :: int
  assumes k: "0 < k"
  shows "(a + 1) div k = a div k + (if (a + 1) mod k = 0 then 1 else 0)"
proof (cases "a mod k = k - 1")
  case True
  have e: "k * (a div k) + a mod k = a" by (rule mult_div_mod_eq)
  have "a + 1 = k * (a div k + 1)"
    unfolding distrib_left using e True by linarith
  with k show ?thesis by simp
next
  case False
  have r: "0 \<le> a mod k + 1" "a mod k + 1 < k"
    using k False pos_mod_bound [of k a] pos_mod_sign [of k a] by linarith+
  have eq: "a + 1 = (a mod k + 1) + k * (a div k)"
    by simp
  have d: "(a + 1) div k = a div k"
  proof -
    have "(a + 1) div k = ((a mod k + 1) + k * (a div k)) div k"
      using eq by (rule arg_cong)
    also have "\<dots> = a div k + (a mod k + 1) div k"
      using k by (simp only: div_mult_self2)
    finally show ?thesis
      using r by (simp add: div_pos_pos_trivial)
  qed
  have m: "(a + 1) mod k = a mod k + 1"
  proof -
    have "(a + 1) mod k = ((a mod k + 1) + k * (a div k)) mod k"
      using eq by (rule arg_cong)
    also have "\<dots> = (a mod k + 1) mod k"
      by (simp only: mod_mult_self2)
    finally show ?thesis
      using r by (simp add: mod_pos_pos_trivial)
  qed
  have "0 \<le> a mod k" using k by simp
  with m have "(a + 1) mod k \<noteq> 0" by linarith
  with d show ?thesis by simp
qed
lemma mod_shift_zero:
  fixes y c k :: int
  assumes "c mod k = 0"
  shows "(y - c) mod k = 0 \<longleftrightarrow> y mod k = 0"
  using assms by (metis diff_zero mod_diff_right_eq)

lemma day_from_year_succ [calendar_simps]:
  "day_from_year (y + 1) = day_from_year y + days_in_year y"
proof -
  have a: "(y + 1 - 1969) div 4 = (y - 1969) div 4 + (if y mod 4 = 0 then 1 else 0)"
    using div_succ_int [of 4 "y - 1969"] mod_shift_zero [of 1968 4 y] by simp
  have b: "(y + 1 - 1901) div 100 = (y - 1901) div 100 + (if y mod 100 = 0 then 1 else 0)"
    using div_succ_int [of 100 "y - 1901"] mod_shift_zero [of 1900 100 y] by simp
  have c: "(y + 1 - 1601) div 400 = (y - 1601) div 400 + (if y mod 400 = 0 then 1 else 0)"
    using div_succ_int [of 400 "y - 1601"] mod_shift_zero [of 1600 400 y] by simp
  have d4: "y mod 100 = 0 \<Longrightarrow> y mod 4 = 0"
    using mod_mod_cancel [of 4 100 y] by simp
  have d100: "y mod 400 = 0 \<Longrightarrow> y mod 100 = 0"
    using mod_mod_cancel [of 100 400 y] by simp
  show ?thesis
    unfolding day_from_year_def days_in_year_def a b c
    using d4 d100 by auto
qed

lemma days_in_year_bounds [calendar_simps]: "365 \<le> days_in_year y" "days_in_year y \<le> 366"
  by (simp_all add: days_in_year_def)

lemma day_from_year_less_succ: "day_from_year y < day_from_year (y + 1)"
  using days_in_year_bounds(1) [of y] by (simp add: day_from_year_succ)

lemma day_from_year_strict_mono:
  assumes "y < y'"
  shows "day_from_year y < day_from_year y'"
proof -
  obtain k where k: "y' = y + 1 + int k"
    using assms by (metis add.commute zless_iff_Suc_zadd of_nat_Suc add.left_commute)
  have "day_from_year y < day_from_year (y + 1 + int k)"
  proof (induction k)
    case 0
    then show ?case using day_from_year_less_succ by simp
  next
    case (Suc k)
    have "day_from_year (y + 1 + int k) < day_from_year (y + 1 + int k + 1)"
      by (rule day_from_year_less_succ)
    with Suc.IH show ?case by (simp add: add.assoc)
  qed
  with k show ?thesis by simp
qed

lemma day_from_year_mono_iff [simp]: "day_from_year y < day_from_year y' \<longleftrightarrow> y < y'"
  by (metis day_from_year_strict_mono linorder_neqE_linordered_idom order_less_asym)

lemma day_from_year_le_iff [simp]: "day_from_year y \<le> day_from_year y' \<longleftrightarrow> y \<le> y'"
  by (meson day_from_year_mono_iff not_le)

subsection \<open>YearFromTime: a search that terminates\<close>

text \<open>
  \<open>year_search d y\<close> walks from the guess \<open>y\<close> to the year that contains day
  \<open>d\<close>. It only moves down while \<open>d\<close> lies before year \<open>y\<close> and only up while
  \<open>d\<close> lies after it; the measure is the distance in days from \<open>d\<close> to the
  year, which both moves shrink because \<open>day_from_year\<close> is strictly increasing.
\<close>

function year_search :: "int \<Rightarrow> int \<Rightarrow> int" where
  "year_search d y =
     (if d < day_from_year y then year_search d (y - 1)
      else if day_from_year (y + 1) \<le> d then year_search d (y + 1)
      else y)"
  by pat_completeness auto
termination
proof (relation "measure (\<lambda>(d, y). nat (if d < day_from_year y then day_from_year y - d
                                          else d - day_from_year (y + 1) + 1))")
  show "wf (measure (\<lambda>(d, y). nat (if d < day_from_year y then day_from_year y - d
                                     else d - day_from_year (y + 1) + 1)))"
    by simp
next
  fix d y :: int
  assume "d < day_from_year y"
  moreover have "day_from_year (y - 1) < day_from_year y"
    by simp
  ultimately show "((d, y - 1), d, y) \<in> measure (\<lambda>(d, y). nat (if d < day_from_year y
      then day_from_year y - d else d - day_from_year (y + 1) + 1))"
    by auto
next
  fix d y :: int
  assume "\<not> d < day_from_year y" "day_from_year (y + 1) \<le> d"
  moreover have "day_from_year (y + 1) < day_from_year (2 + y)"
    by simp
  ultimately show "((d, y + 1), d, y) \<in> measure (\<lambda>(d, y). nat (if d < day_from_year y
      then day_from_year y - d else d - day_from_year (y + 1) + 1))"
    by (auto simp del: day_from_year_mono_iff day_from_year_le_iff)
qed

declare year_search.simps [simp del]

lemma year_search_bounds:
  "day_from_year (year_search d y) \<le> d \<and> d < day_from_year (year_search d y + 1)"
proof (induction d y rule: year_search.induct)
  case (1 d y)
  then show ?case
    by (cases "d < day_from_year y"; cases "day_from_year (y + 1) \<le> d")
       (simp_all add: year_search.simps [of d y])
qed

lemma year_unique:
  assumes "day_from_year y \<le> d" "d < day_from_year (y + 1)"
    and "day_from_year y' \<le> d" "d < day_from_year (y' + 1)"
  shows "y = y'"
proof -
  have "\<not> y < y'" using assms(1,2,3) day_from_year_le_iff [of "y + 1" y'] by linarith
  moreover have "\<not> y' < y" using assms(1,3,4) day_from_year_le_iff [of "y' + 1" y] by linarith
  ultimately show ?thesis by simp
qed

text \<open>The search unfolded one step at a time, only where the guard is decided:
  the evaluation rules for concrete days.\<close>

lemma year_search_down [calendar_simps]:
  "d < day_from_year y \<Longrightarrow> year_search d y = year_search d (y - 1)"
  by (simp add: year_search.simps [of d y])

lemma year_search_up [calendar_simps]:
  "day_from_year y \<le> d \<Longrightarrow> day_from_year (y + 1) \<le> d \<Longrightarrow> year_search d y = year_search d (y + 1)"
  by (simp add: year_search.simps [of d y])

lemma year_search_found [calendar_simps]:
  "day_from_year y \<le> d \<Longrightarrow> d < day_from_year (y + 1) \<Longrightarrow> year_search d y = y"
  by (simp add: year_search.simps [of d y])

definition year_from_day :: "int \<Rightarrow> int" where
  "year_from_day d = year_search d (1970 + (400 * d) div 146097)"

definition year_from_time :: "int \<Rightarrow> int" where
  "year_from_time t = year_from_day (day t)"

lemma year_from_day_bounds:
  "day_from_year (year_from_day d) \<le> d" "d < day_from_year (year_from_day d + 1)"
  using year_search_bounds unfolding year_from_day_def by blast+

lemma year_from_day_mono:
  assumes "d \<le> d'"
  shows "year_from_day d \<le> year_from_day d'"
proof (rule ccontr)
  assume "\<not> year_from_day d \<le> year_from_day d'"
  then have "year_from_day d' + 1 \<le> year_from_day d" by simp
  then have "day_from_year (year_from_day d' + 1) \<le> day_from_year (year_from_day d)"
    by simp
  with year_from_day_bounds [of d] year_from_day_bounds [of d'] assms show False
    by linarith
qed

text \<open>\<open>YearFromTime\<close> as the standard defines it: the year \<open>y\<close> whose first day
  is not after the day of \<open>t\<close> while the first day of \<open>y + 1\<close> is.\<close>

lemma year_from_day_eqI:
  "day_from_year y \<le> d \<Longrightarrow> d < day_from_year (y + 1) \<Longrightarrow> year_from_day d = y"
  using year_from_day_bounds year_unique by blast

lemma year_from_day_iff:
  "year_from_day d = y \<longleftrightarrow> day_from_year y \<le> d \<and> d < day_from_year (y + 1)"
  using year_from_day_bounds year_from_day_eqI by blast

lemma day_ge_iff: "a \<le> day t \<longleftrightarrow> ms_per_day * a \<le> t"
  unfolding day_def ms_per_day_def by linarith

lemma day_lt_iff: "day t < a \<longleftrightarrow> t < ms_per_day * a"
  unfolding day_def ms_per_day_def by linarith

section \<open>Months, dates and week days\<close>

definition in_leap_year :: "int \<Rightarrow> int" where
  "in_leap_year t = (if days_in_year (year_from_time t) = 366 then 1 else 0)"

definition day_within_year :: "int \<Rightarrow> int" where
  "day_within_year t = day t - day_from_year (year_from_time t)"

text \<open>\<open>MonthFromTime\<close>, the table of the standard with \<open>l = InLeapYear(t)\<close>;
  months are numbered from 0 (January) to 11 (December).\<close>

definition month_of_dwy :: "int \<Rightarrow> int \<Rightarrow> int" where
  "month_of_dwy l d =
     (if d < 31 then 0 else if d < 59 + l then 1 else if d < 90 + l then 2
      else if d < 120 + l then 3 else if d < 151 + l then 4 else if d < 181 + l then 5
      else if d < 212 + l then 6 else if d < 243 + l then 7 else if d < 273 + l then 8
      else if d < 304 + l then 9 else if d < 334 + l then 10 else 11)"

definition month_from_time :: "int \<Rightarrow> int" where
  "month_from_time t = month_of_dwy (in_leap_year t) (day_within_year t)"

definition date_from_time :: "int \<Rightarrow> int" where
  "date_from_time t =
     (let d = day_within_year t; l = in_leap_year t; m = month_from_time t in
      if m = 0 then d + 1 else if m = 1 then d - 30 else if m = 2 then d - 58 - l
      else if m = 3 then d - 89 - l else if m = 4 then d - 119 - l
      else if m = 5 then d - 150 - l else if m = 6 then d - 180 - l
      else if m = 7 then d - 211 - l else if m = 8 then d - 242 - l
      else if m = 9 then d - 272 - l else if m = 10 then d - 303 - l else d - 333 - l)"

definition week_day :: "int \<Rightarrow> int" where
  "week_day t = (day t + 4) mod 7"

definition hour_from_time :: "int \<Rightarrow> int" where
  "hour_from_time t = (t div 3600000) mod 24"

definition min_from_time :: "int \<Rightarrow> int" where
  "min_from_time t = (t div 60000) mod 60"

definition sec_from_time :: "int \<Rightarrow> int" where
  "sec_from_time t = (t div 1000) mod 60"

section \<open>MakeTime, MakeDay, MakeDate, TimeClip\<close>

definition make_time :: "int \<Rightarrow> int \<Rightarrow> int \<Rightarrow> int \<Rightarrow> int" where
  "make_time h m s milli = h * 3600000 + m * 60000 + s * 1000 + milli"

text \<open>The first day of month \<open>m\<close> (0 to 11) within a year, \<open>l\<close> being 1 in a leap
  year: the day \<open>MakeDay\<close> looks for, written out.\<close>

definition month_start :: "int \<Rightarrow> int \<Rightarrow> int" where
  "month_start l m =
     (if m = 0 then 0 else if m = 1 then 31 else if m = 2 then 59 + l
      else if m = 3 then 90 + l else if m = 4 then 120 + l else if m = 5 then 151 + l
      else if m = 6 then 181 + l else if m = 7 then 212 + l else if m = 8 then 243 + l
      else if m = 9 then 273 + l else if m = 10 then 304 + l else 334 + l)"

definition leap_flag :: "int \<Rightarrow> int" where
  "leap_flag y = (if days_in_year y = 366 then 1 else 0)"

definition make_day :: "int \<Rightarrow> int \<Rightarrow> int \<Rightarrow> int" where
  "make_day year month date =
     (let ym = year + month div 12; mn = month mod 12
      in day_from_year ym + month_start (leap_flag ym) mn + date - 1)"

definition make_date :: "int \<Rightarrow> int \<Rightarrow> int" where
  "make_date dy tm = dy * ms_per_day + tm"

definition time_clip :: "int option \<Rightarrow> int option" where
  "time_clip tv = (case tv of None \<Rightarrow> None
     | Some t \<Rightarrow> if \<bar>t\<bar> > 8640000000000000 then None else Some t)"

text \<open>The number of days of month \<open>m\<close> (0 to 11) of year \<open>y\<close>: the valid dates.\<close>

definition month_length :: "int \<Rightarrow> int \<Rightarrow> int" where
  "month_length l m =
     (if m = 1 then 28 + l else if m = 3 \<or> m = 5 \<or> m = 8 \<or> m = 10 then 30 else 31)"

definition days_in_month :: "int \<Rightarrow> int \<Rightarrow> int" where
  "days_in_month y m = month_length (leap_flag y) m"

declare ms_per_day_def [calendar_simps] day_def [calendar_simps]
  time_within_day_def [calendar_simps] days_in_year_def [calendar_simps]
  day_from_year_def [calendar_simps] year_from_day_def [calendar_simps]
  year_from_time_def [calendar_simps]
  in_leap_year_def [calendar_simps] day_within_year_def [calendar_simps]
  month_of_dwy_def [calendar_simps] month_from_time_def [calendar_simps]
  month_length_def [calendar_simps] date_from_time_def [calendar_simps]
  week_day_def [calendar_simps] hour_from_time_def [calendar_simps]
  min_from_time_def [calendar_simps] sec_from_time_def [calendar_simps] make_time_def [calendar_simps]
  month_start_def [calendar_simps] leap_flag_def [calendar_simps]
  make_day_def [calendar_simps] make_date_def [calendar_simps]
  time_clip_def [calendar_simps] days_in_month_def [calendar_simps]

section \<open>The calendar round trips\<close>

lemma in_leap_year_flag: "in_leap_year t = leap_flag (year_from_time t)"
  by (simp add: in_leap_year_def leap_flag_def)

lemma day_within_year_bounds:
  "0 \<le> day_within_year t" "day_within_year t < days_in_year (year_from_time t)"
  using year_from_day_bounds [of "day t"]
  by (simp_all add: day_within_year_def year_from_time_def day_from_year_succ)

lemma month_from_time_range: "0 \<le> month_from_time t" "month_from_time t \<le> 11"
  by (simp_all add: month_from_time_def month_of_dwy_def)

lemma leap_flag_range: "0 \<le> leap_flag y" "leap_flag y \<le> 1"
  by (simp_all add: leap_flag_def)

lemma month_of_dwy_start:
  assumes l: "0 \<le> l" "l \<le> 1" and m: "0 \<le> m" "m \<le> 11"
    and k: "0 \<le> k" "k < month_length l m"
  shows "month_of_dwy l (month_start l m + k) = m"
proof -
  have "m \<in> {0, 1, 2, 3, 4, 5, 6, 7, 8, 9, 10, 11}" using m by (rule month_range_cases)
  then show ?thesis using l k
    by (elim insertE emptyE) (simp_all add: month_of_dwy_def month_start_def month_length_def)
qed

lemma month_start_length_le:
  assumes l: "0 \<le> l" "l \<le> 1" and m: "0 \<le> m" "m \<le> 11"
  shows "0 \<le> month_start l m" "month_start l m + month_length l m \<le> 365 + l"
proof -
  have "m \<in> {0, 1, 2, 3, 4, 5, 6, 7, 8, 9, 10, 11}" using m by (rule month_range_cases)
  then show "0 \<le> month_start l m" "month_start l m + month_length l m \<le> 365 + l" using l
    by (elim insertE emptyE; simp add: month_start_def month_length_def)+
qed

lemma days_in_month_le_31: "days_in_month y m \<le> 31"
  by (simp add: days_in_month_def month_length_def leap_flag_def)

lemma days_in_year_flag: "days_in_year y = 365 + leap_flag y"
  using days_in_year_bounds [of y] by (simp add: leap_flag_def)

lemma date_from_time_month_start:
  "date_from_time t = day_within_year t - month_start (in_leap_year t) (month_from_time t) + 1"
  by (simp add: date_from_time_def month_start_def Let_def)

lemma month_of_dwy_bounds:
  assumes l: "0 \<le> l" "l \<le> 1" and d: "0 \<le> d" "d < 365 + l"
  shows "month_start l (month_of_dwy l d) \<le> d"
    "d < month_start l (month_of_dwy l d) + month_length l (month_of_dwy l d)"
  using assms by (simp_all add: month_of_dwy_def month_start_def month_length_def)

lemma date_from_time_range:
  "1 \<le> date_from_time t"
  "date_from_time t \<le> days_in_month (year_from_time t) (month_from_time t)"
proof -
  let ?l = "leap_flag (year_from_time t)"
  have b: "0 \<le> day_within_year t" "day_within_year t < 365 + ?l"
    using day_within_year_bounds [of t] by (simp_all add: days_in_year_flag)
  note mb = month_of_dwy_bounds [OF leap_flag_range(1) leap_flag_range(2) b]
  show "1 \<le> date_from_time t"
    using mb(1) by (simp add: date_from_time_month_start month_from_time_def in_leap_year_flag)
  show "date_from_time t \<le> days_in_month (year_from_time t) (month_from_time t)"
    using mb(2) by (simp add: date_from_time_month_start month_from_time_def in_leap_year_flag
        days_in_month_def)
qed

text \<open>The calendar fields depend on the day only.\<close>

lemma fields_of_same_day:
  "day t = day u \<Longrightarrow> year_from_time t = year_from_time u \<and> month_from_time t = month_from_time u
     \<and> date_from_time t = date_from_time u"
  by (simp add: year_from_time_def month_from_time_def date_from_time_def day_within_year_def
      in_leap_year_def)

text \<open>\<open>MakeDay\<close> of the year, month and date of a time value is its day.\<close>

theorem make_day_of_time:
  "make_day (year_from_time t) (month_from_time t) (date_from_time t) = day t"
proof -
  let ?m = "month_from_time t"
  have "?m div 12 = 0" "?m mod 12 = ?m"
    using month_from_time_range [of t] by simp_all
  then show ?thesis
    by (simp add: make_day_def date_from_time_month_start in_leap_year_flag day_within_year_def)
qed

text \<open>For a valid calendar date, the year, month and date of its day are the
  ones it was made from.\<close>

lemma make_day_within_year:
  assumes m: "0 \<le> m" "m \<le> 11" and d: "1 \<le> d" "d \<le> days_in_month y m"
  shows "day_from_year y \<le> make_day y m d" "make_day y m d < day_from_year (y + 1)"
    "make_day y m d = day_from_year y + month_start (leap_flag y) m + (d - 1)"
proof -
  have md: "m div 12 = 0" "m mod 12 = m" using m by simp_all
  show eq: "make_day y m d = day_from_year y + month_start (leap_flag y) m + (d - 1)"
    using md by (simp add: make_day_def)
  note bnd = month_start_length_le [OF leap_flag_range(1) [of y] leap_flag_range(2) [of y] m]
  show "day_from_year y \<le> make_day y m d" using eq bnd d by simp
  show "make_day y m d < day_from_year (y + 1)"
    using eq bnd d by (simp add: day_from_year_succ days_in_year_flag days_in_month_def)
qed

theorem time_of_make_day:
  assumes m: "0 \<le> m" "m \<le> 11" and d: "1 \<le> d" "d \<le> days_in_month y m"
    and t: "day t = make_day y m d"
  shows "year_from_time t = y" "month_from_time t = m" "date_from_time t = d"
proof -
  let ?l = "leap_flag y"
  note w = make_day_within_year [OF m d]
  have y: "year_from_time t = y"
    unfolding year_from_time_def t using w(1,2) by (rule year_from_day_eqI)
  then show "year_from_time t = y" .
  have dwy: "day_within_year t = month_start ?l m + (d - 1)"
    using y t w(3) by (simp add: day_within_year_def)
  have l: "in_leap_year t = ?l" using y by (simp add: in_leap_year_flag)
  show mo: "month_from_time t = m"
    unfolding month_from_time_def dwy l
    by (rule month_of_dwy_start [OF leap_flag_range(1) [of y] leap_flag_range(2) [of y] m])
       (use d in \<open>simp_all add: days_in_month_def\<close>)
  show "date_from_time t = d"
    by (simp add: date_from_time_month_start mo dwy l)
qed

text \<open>The year search terminates on every time value (its measure is the
  distance in days to the year) and \<open>YearFromTime(t)\<close> is the year the standard
  specifies: the largest \<open>y\<close> with \<open>TimeFromYear(y) \<le> t\<close>, that is, the \<open>y\<close> with
  \<open>TimeFromYear(y) \<le> t < TimeFromYear(y + 1)\<close>.\<close>

lemma year_from_time_spec:
  "year_from_time t = y \<longleftrightarrow> time_from_year y \<le> t \<and> t < time_from_year (y + 1)"
  by (simp add: year_from_time_def year_from_day_iff time_from_year_def day_ge_iff day_lt_iff)

end
