(* ===== verification/JS_Value.thy ===== *)
theory JS_Value
  imports Prelude
begin

text \<open>
  The JavaScript values the sources handle: the arguments of the date helpers
  (a timestamp, a \<open>Date\<close> object, a date string, \<open>null\<close> or \<open>undefined\<close>), the
  field values \<open>sortByField\<close> compares, and the results of \<open>formatDate\<close>
  (a string or the number \<open>0\<close>). Numbers are modelled as integers with \<open>None\<close> for
  \<open>NaN\<close> (every number the sources compute is an integral count of milliseconds,
  days or months, far below \<open>2^53\<close>); a \<open>Date\<close> object is represented by its
  \<open>[[DateValue]]\<close>, a time value or \<open>NaN\<close>. Defined here: \<open>ToBoolean\<close>
  (truthiness, used by every \<open>if (!x)\<close> guard of the sources), \<open>ToNumber\<close> of
  non-string primitives, strict equality \<open>===\<close>, the number operators with their
  \<open>NaN\<close> propagation, and the string form of a number.
\<close>

type_synonym jsnum = "int option"

datatype jsval =
    JUndefined
  | JNull
  | JBool bool
  | JNum jsnum
  | JStr string
  | JDate "int option"

section \<open>Conversions\<close>

text \<open>\<open>ToBoolean\<close>: the falsy values are \<open>undefined\<close>, \<open>null\<close>, \<open>false\<close>,
  \<open>0\<close>, \<open>NaN\<close> and the empty string; every object, an invalid \<open>Date\<close> included,
  is truthy.\<close>

fun truthy :: "jsval \<Rightarrow> bool" where
  "truthy JUndefined = False"
| "truthy JNull = False"
| "truthy (JBool b) = b"
| "truthy (JNum None) = False"
| "truthy (JNum (Some n)) = (n \<noteq> 0)"
| "truthy (JStr s) = (s \<noteq> [])"
| "truthy (JDate _) = True"

text \<open>\<open>ToNumber\<close> of a primitive that is not a string.\<close>

fun to_number :: "jsval \<Rightarrow> jsnum" where
  "to_number JUndefined = None"
| "to_number JNull = Some 0"
| "to_number (JBool b) = Some (if b then 1 else 0)"
| "to_number (JNum n) = n"
| "to_number (JStr _) = None"
| "to_number (JDate tv) = tv"

section \<open>Number operators\<close>

definition num_add :: "jsnum \<Rightarrow> jsnum \<Rightarrow> jsnum" where
  "num_add a b = (case (a, b) of (Some x, Some y) \<Rightarrow> Some (x + y) | _ \<Rightarrow> None)"

definition num_sub :: "jsnum \<Rightarrow> jsnum \<Rightarrow> jsnum" where
  "num_sub a b = (case (a, b) of (Some x, Some y) \<Rightarrow> Some (x - y) | _ \<Rightarrow> None)"

text \<open>The remainder operator \<open>%\<close>: the result takes the sign of the dividend
  (truncated division), unlike HOL's \<open>mod\<close>; a zero divisor gives \<open>NaN\<close>.\<close>

definition num_rem :: "jsnum \<Rightarrow> jsnum \<Rightarrow> jsnum" where
  "num_rem a b = (case (a, b) of
     (Some x, Some y) \<Rightarrow> if y = 0 then None else Some (sgn x * (\<bar>x\<bar> mod \<bar>y\<bar>))
   | _ \<Rightarrow> None)"

text \<open>Strict equality and the relational operators on numbers: every comparison
  with \<open>NaN\<close> is false.\<close>

definition num_eq :: "jsnum \<Rightarrow> jsnum \<Rightarrow> bool" where
  "num_eq a b = (case (a, b) of (Some x, Some y) \<Rightarrow> x = y | _ \<Rightarrow> False)"

definition num_lt :: "jsnum \<Rightarrow> jsnum \<Rightarrow> bool" where
  "num_lt a b = (case (a, b) of (Some x, Some y) \<Rightarrow> x < y | _ \<Rightarrow> False)"

definition num_le :: "jsnum \<Rightarrow> jsnum \<Rightarrow> bool" where
  "num_le a b = (case (a, b) of (Some x, Some y) \<Rightarrow> x \<le> y | _ \<Rightarrow> False)"

text \<open>\<open>===\<close> on values. Two \<open>Date\<close> operands are distinct objects in every
  comparison the sources make, hence never strictly equal.\<close>

fun js_strict_eq :: "jsval \<Rightarrow> jsval \<Rightarrow> bool" where
  "js_strict_eq JUndefined JUndefined = True"
| "js_strict_eq JNull JNull = True"
| "js_strict_eq (JBool a) (JBool b) = (a = b)"
| "js_strict_eq (JNum a) (JNum b) = num_eq a b"
| "js_strict_eq (JStr a) (JStr b) = (a = b)"
| "js_strict_eq _ _ = False"

text \<open>\<open>Number::toString\<close> for the integral numbers of the model.\<close>

definition number_to_string :: "jsnum \<Rightarrow> string" where
  "number_to_string n = (case n of None \<Rightarrow> ''NaN'' | Some i \<Rightarrow> int_dec i)"

declare num_add_def [js_simps] num_sub_def [js_simps] num_rem_def [js_simps]
  num_eq_def [js_simps] num_lt_def [js_simps] num_le_def [js_simps]
  number_to_string_def [js_simps]

section \<open>Lemmas\<close>

lemma num_ops_Some [simp]:
  "num_add (Some x) (Some y) = Some (x + y)"
  "num_sub (Some x) (Some y) = Some (x - y)"
  "num_eq (Some x) (Some y) \<longleftrightarrow> x = y"
  "num_lt (Some x) (Some y) \<longleftrightarrow> x < y"
  "num_le (Some x) (Some y) \<longleftrightarrow> x \<le> y"
  by (simp_all add: num_add_def num_sub_def num_eq_def num_lt_def num_le_def)

lemma num_ops_None [simp]:
  "num_add None b = None" "num_add a None = None"
  "num_sub None b = None" "num_sub a None = None"
  "num_rem None b = None" "num_rem a None = None"
  "\<not> num_eq None b" "\<not> num_eq a None"
  "\<not> num_lt None b" "\<not> num_lt a None"
  "\<not> num_le None b" "\<not> num_le a None"
  by (simp_all add: num_add_def num_sub_def num_rem_def num_eq_def num_lt_def num_le_def
      split: option.splits)

lemma num_rem_nonneg [simp]:
  "0 \<le> x \<Longrightarrow> 0 < y \<Longrightarrow> num_rem (Some x) (Some y) = Some (x mod y)"
  by (cases "x = 0") (simp_all add: num_rem_def)

lemma num_eq_iff: "num_eq a b \<longleftrightarrow> (\<exists>x. a = Some x \<and> b = Some x)"
  by (auto simp add: num_eq_def split: option.splits)

lemma js_strict_eq_Str_Num [simp]:
  "\<not> js_strict_eq (JStr s) (JNum n)" "\<not> js_strict_eq (JNum n) (JStr s)"
  by simp_all

end
