(* ===== verification/JS_Date.thy ===== *)
theory JS_Date
  imports Calendar JS_Value "HOL-Library.Monad_Syntax"
begin

text \<open>
  The \<open>Date\<close> built-ins the sources call (ECMA-262, section 21.4): the
  constructor \<open>new Date(v)\<close> with its string parser, \<open>new Date()\<close> and
  \<open>Date.now()\<close> as readings of the host clock, the local-time getters
  \<open>getFullYear\<close>, \<open>getMonth\<close>, \<open>getDate\<close>, \<open>getDay\<close> and \<open>getTime\<close>, the
  setters \<open>setHours(0, 0, 0, 0)\<close> and \<open>setDate\<close>, the relational comparison
  of two dates, and \<open>Date.prototype.toString\<close> (which \<open>String(date)\<close> calls).

  The host environment is a record: the offset of local time from UTC and the
  implementation-defined fallback of \<open>Date.parse\<close> for strings that are not in
  the standard's date time string format. The offset is fixed: the model has no
  daylight-saving transitions (the target locale af-ZA, South Africa, has none).
\<close>

record date_env =
  tz_offset :: int
  tz_name :: string
  legacy_parse :: "string \<Rightarrow> int option"

definition local_time :: "date_env \<Rightarrow> int \<Rightarrow> int" where
  "local_time env t = t + tz_offset env"

definition utc :: "date_env \<Rightarrow> int \<Rightarrow> int" where
  "utc env t = t - tz_offset env"

section \<open>The date time string format\<close>

text \<open>
  \<open>YYYY\<close>, \<open>YYYY-MM\<close> or \<open>YYYY-MM-DD\<close>, optionally followed by
  \<open>THH:mm\<close>, \<open>THH:mm:ss\<close> or \<open>THH:mm:ss.sss\<close> and, after a time, by \<open>Z\<close> or
  \<open>+HH:mm\<close> / \<open>-HH:mm\<close>. Expanded six-digit years are not modelled; such a
  string goes to the implementation-defined fallback.
\<close>

record iso_parts =
  iso_year :: int
  iso_month :: int
  iso_day :: int
  iso_time :: "(int \<times> int \<times> int \<times> int) option"
  iso_offset :: "(int \<times> int \<times> int) option"

definition lit :: "char \<Rightarrow> string \<Rightarrow> string option" where
  "lit c s = (case s of x # xs \<Rightarrow> if x = c then Some xs else None | [] \<Rightarrow> None)"

definition take_num :: "nat \<Rightarrow> string \<Rightarrow> (int \<times> string) option" where
  "take_num n s =
     (if n \<le> length s then map_option (\<lambda>v. (int v, drop n s)) (digits_val (take n s)) else None)"

definition iso_date_part :: "string \<Rightarrow> (int \<times> int \<times> int \<times> string) option" where
  "iso_date_part s = do {
     (y, r) \<leftarrow> take_num 4 s;
     (case lit CHR ''-'' r of
        None \<Rightarrow> Some (y, 1, 1, r)
      | Some r1 \<Rightarrow> do {
          (mo, r2) \<leftarrow> take_num 2 r1;
          (case lit CHR ''-'' r2 of
             None \<Rightarrow> Some (y, mo, 1, r2)
           | Some r3 \<Rightarrow> do { (d, r4) \<leftarrow> take_num 2 r3; Some (y, mo, d, r4) }) })
   }"

definition iso_seconds :: "string \<Rightarrow> (int \<times> int \<times> string) option" where
  "iso_seconds s =
     (case lit CHR '':'' s of
        None \<Rightarrow> Some (0, 0, s)
      | Some r \<Rightarrow> do {
          (sec, r1) \<leftarrow> take_num 2 r;
          (case lit CHR ''.'' r1 of
             None \<Rightarrow> Some (sec, 0, r1)
           | Some r2 \<Rightarrow> do { (ms, r3) \<leftarrow> take_num 3 r2; Some (sec, ms, r3) }) })"

definition iso_offset_part :: "string \<Rightarrow> (int \<times> int \<times> int) option option" where
  "iso_offset_part s =
     (case s of
        [] \<Rightarrow> Some None
      | c # r \<Rightarrow>
          if c = CHR ''Z'' \<and> r = [] then Some (Some (1, 0, 0))
          else if c = CHR ''+'' \<or> c = CHR ''-'' then do {
            (hh, r1) \<leftarrow> take_num 2 r;
            r2 \<leftarrow> lit CHR '':'' r1;
            (mm, r3) \<leftarrow> take_num 2 r2;
            if r3 = [] then Some (Some (if c = CHR ''-'' then -1 else 1, hh, mm)) else None }
          else None)"

definition iso_parse :: "string \<Rightarrow> iso_parts option" where
  "iso_parse s = do {
     (y, mo, d, r) \<leftarrow> iso_date_part s;
     (case r of
        [] \<Rightarrow> Some \<lparr>iso_year = y, iso_month = mo, iso_day = d, iso_time = None, iso_offset = None\<rparr>
      | _ \<Rightarrow> do {
          r1 \<leftarrow> lit CHR ''T'' r;
          (h, r2) \<leftarrow> take_num 2 r1;
          r3 \<leftarrow> lit CHR '':'' r2;
          (mi, r4) \<leftarrow> take_num 2 r3;
          (sec, ms, r5) \<leftarrow> iso_seconds r4;
          off \<leftarrow> iso_offset_part r5;
          Some \<lparr>iso_year = y, iso_month = mo, iso_day = d,
                iso_time = Some (h, mi, sec, ms), iso_offset = off\<rparr> })
   }"

text \<open>Out-of-range elements make a string of the format evaluate to \<open>NaN\<close>.\<close>

definition iso_valid :: "iso_parts \<Rightarrow> bool" where
  "iso_valid p \<longleftrightarrow>
     1 \<le> iso_month p \<and> iso_month p \<le> 12 \<and>
     1 \<le> iso_day p \<and> iso_day p \<le> days_in_month (iso_year p) (iso_month p - 1) \<and>
     (case iso_time p of None \<Rightarrow> True
      | Some (h, mi, sec, ms) \<Rightarrow> mi \<le> 59 \<and> sec \<le> 59 \<and>
          (h < 24 \<or> h = 24 \<and> mi = 0 \<and> sec = 0 \<and> ms = 0)) \<and>
     (case iso_offset p of None \<Rightarrow> True | Some (_, hh, mm) \<Rightarrow> hh \<le> 23 \<and> mm \<le> 59)"

text \<open>A date-only form is UTC, a date-time form without offset is local time.\<close>

definition iso_time_value :: "date_env \<Rightarrow> iso_parts \<Rightarrow> int" where
  "iso_time_value env p =
     (let dy = make_day (iso_year p) (iso_month p - 1) (iso_day p) in
      case iso_time p of
        None \<Rightarrow> make_date dy 0
      | Some (h, mi, sec, ms) \<Rightarrow>
          (let t = make_date dy (make_time h mi sec ms) in
           case iso_offset p of
             None \<Rightarrow> utc env t
           | Some (sg, hh, mm) \<Rightarrow> t - sg * (hh * 3600000 + mm * 60000)))"

definition date_parse :: "date_env \<Rightarrow> string \<Rightarrow> int option" where
  "date_parse env s =
     (case iso_parse s of
        None \<Rightarrow> legacy_parse env s
      | Some p \<Rightarrow> if iso_valid p then Some (iso_time_value env p) else None)"

section \<open>Construction, getters and setters\<close>

text \<open>\<open>new Date(v)\<close> with one argument: a \<open>Date\<close> is copied, a string is parsed,
  anything else is converted by \<open>ToNumber\<close>; \<open>TimeClip\<close> in every case.\<close>

definition new_date :: "date_env \<Rightarrow> jsval \<Rightarrow> int option" where
  "new_date env v =
     time_clip (case v of JDate tv \<Rightarrow> tv | JStr s \<Rightarrow> date_parse env s | _ \<Rightarrow> to_number v)"

text \<open>\<open>new Date()\<close> with no argument: the clock reading, clipped.\<close>

definition date_now_obj :: "int \<Rightarrow> int option" where
  "date_now_obj n = time_clip (Some n)"

definition get_full_year :: "date_env \<Rightarrow> int option \<Rightarrow> jsnum" where
  "get_full_year env tv = map_option (\<lambda>t. year_from_time (local_time env t)) tv"

definition get_month :: "date_env \<Rightarrow> int option \<Rightarrow> jsnum" where
  "get_month env tv = map_option (\<lambda>t. month_from_time (local_time env t)) tv"

definition get_date :: "date_env \<Rightarrow> int option \<Rightarrow> jsnum" where
  "get_date env tv = map_option (\<lambda>t. date_from_time (local_time env t)) tv"

definition get_day :: "date_env \<Rightarrow> int option \<Rightarrow> jsnum" where
  "get_day env tv = map_option (\<lambda>t. week_day (local_time env t)) tv"

text \<open>\<open>setHours(0, 0, 0, 0)\<close>: local midnight of the same local day.\<close>

definition set_hours_midnight :: "date_env \<Rightarrow> int option \<Rightarrow> int option" where
  "set_hours_midnight env tv =
     (case tv of None \<Rightarrow> None
      | Some t \<Rightarrow> time_clip (Some (utc env (make_date (day (local_time env t)) (make_time 0 0 0 0)))))"

text \<open>\<open>setDate(dt)\<close>: the same local year, month and time of day, date \<open>dt\<close>
  (which may lie outside the month: \<open>MakeDay\<close> carries it over).\<close>

definition set_date :: "date_env \<Rightarrow> int option \<Rightarrow> jsnum \<Rightarrow> int option" where
  "set_date env tv dt =
     (case (tv, dt) of
        (Some t, Some d) \<Rightarrow>
          (let lt = local_time env t in
           time_clip (Some (utc env (make_date (make_day (year_from_time lt) (month_from_time lt) d)
                                               (time_within_day lt)))))
      | _ \<Rightarrow> None)"

section \<open>Date.prototype.toString\<close>

definition week_day_name :: "int \<Rightarrow> string" where
  "week_day_name w = [''Sun'', ''Mon'', ''Tue'', ''Wed'', ''Thu'', ''Fri'', ''Sat''] ! nat w"

definition month_name :: "int \<Rightarrow> string" where
  "month_name m = [''Jan'', ''Feb'', ''Mar'', ''Apr'', ''May'', ''Jun'', ''Jul'', ''Aug'', ''Sep'',
     ''Oct'', ''Nov'', ''Dec''] ! nat m"

definition date_to_string :: "date_env \<Rightarrow> int option \<Rightarrow> string" where
  "date_to_string env tv =
     (case tv of None \<Rightarrow> ''Invalid Date''
      | Some t \<Rightarrow>
          (let lt = local_time env t; y = year_from_time lt; off = tz_offset env in
           week_day_name (week_day lt) @ '' '' @ month_name (month_from_time lt) @ '' '' @
           dec_fixed 2 (nat (date_from_time lt)) @ '' '' @
           (if 0 \<le> y then [] else ''-'') @ pad_dec 4 (nat \<bar>y\<bar>) @ '' '' @
           dec_fixed 2 (nat (hour_from_time lt)) @ '':'' @ dec_fixed 2 (nat (min_from_time lt)) @
           '':'' @ dec_fixed 2 (nat (sec_from_time lt)) @ '' GMT'' @
           (if 0 \<le> off then ''+'' else ''-'') @
           dec_fixed 2 (nat (\<bar>off\<bar> div 3600000)) @ dec_fixed 2 (nat (\<bar>off\<bar> div 60000 mod 60)) @
           tz_name env))"

text \<open>\<open>String(v)\<close>.\<close>

fun js_to_string :: "date_env \<Rightarrow> jsval \<Rightarrow> string" where
  "js_to_string env JUndefined = ''undefined''"
| "js_to_string env JNull = ''null''"
| "js_to_string env (JBool b) = (if b then ''true'' else ''false'')"
| "js_to_string env (JNum n) = number_to_string n"
| "js_to_string env (JStr s) = s"
| "js_to_string env (JDate tv) = date_to_string env tv"

text \<open>A host in South Africa (UTC+02:00, no daylight saving), whose engine has no
  fallback date formats: the environment the concrete instances below run in.\<close>

definition env_za :: date_env where
  "env_za = \<lparr>tz_offset = 7200000, tz_name = '' (South Africa Standard Time)'',
             legacy_parse = (\<lambda>_. None)\<rparr>"

lemma env_za_simps [js_simps]:
  "tz_offset env_za = 7200000" "tz_name env_za = '' (South Africa Standard Time)''"
  "legacy_parse env_za s = None"
  by (simp_all add: env_za_def)

section \<open>Parsing what the formatters print\<close>

lemma take_num_dec_fixed:
  "0 < w \<Longrightarrow> take_num w (dec_fixed w n @ r) = Some (int (n mod 10 ^ w), r)"
  by (simp add: take_num_def)

lemma lit_Cons [simp]: "lit c (c # r) = Some r"
  by (simp add: lit_def)

lemma lit_Nil [simp]: "lit c [] = None"
  by (simp add: lit_def)

text \<open>A date-only string \<open>YYYY-MM-DD\<close> in the standard format, as \<open>en-CA\<close>
  prints one, parses to midnight UTC of that date.\<close>

lemma date_parse_ymd:
  assumes y: "1000 \<le> y" "y \<le> 9999" and m: "1 \<le> m" "m \<le> 12"
    and d: "1 \<le> d" "d \<le> days_in_month y (m - 1)"
  shows "date_parse env (dec_fixed 4 (nat y) @ ''-'' @ dec_fixed 2 (nat m) @ ''-'' @ dec_fixed 2 (nat d)) =
           Some (make_date (make_day y (m - 1) d) 0)"
proof -
  have dm: "d \<le> 31" using d(2) days_in_month_le_31 [of y "m - 1"] by linarith
  have p: "iso_parse (dec_fixed 4 (nat y) @ ''-'' @ dec_fixed 2 (nat m) @ ''-'' @ dec_fixed 2 (nat d)) =
      Some \<lparr>iso_year = y, iso_month = m, iso_day = d, iso_time = None, iso_offset = None\<rparr>"
    using y m d dm
    by (simp add: iso_parse_def iso_date_part_def take_num_dec_fixed
        take_num_dec_fixed [where r = "[]", simplified])
  show ?thesis
    unfolding date_parse_def p using y m d by (simp add: iso_valid_def iso_time_value_def)
qed

lemma time_clip_small [simp]: "\<bar>t\<bar> \<le> 8640000000000000 \<Longrightarrow> time_clip (Some t) = Some t"
  by (simp add: time_clip_def)

lemma day_from_year_4digit:
  "1000 \<le> y \<Longrightarrow> y \<le> 9999 \<Longrightarrow> -354285 \<le> day_from_year y \<and> day_from_year (y + 1) \<le> 2932897"
proof -
  assume "1000 \<le> y" "y \<le> 9999"
  then have "day_from_year 1000 \<le> day_from_year y" "day_from_year (y + 1) \<le> day_from_year 10000"
    by simp_all
  moreover have "day_from_year 1000 = -354285" "day_from_year 10000 = 2932897"
    by (simp_all add: day_from_year_def)
  ultimately show ?thesis by simp
qed

text \<open>\<open>new Date("YYYY-MM-DD")\<close> is midnight UTC of that date, whatever the
  local time zone.\<close>

lemma new_date_date_only:
  assumes y: "1000 \<le> y" "y \<le> 9999" and m: "1 \<le> m" "m \<le> 12"
    and d: "1 \<le> d" "d \<le> days_in_month y (m - 1)"
  shows "new_date env (JStr (dec_fixed 4 (nat y) @ ''-'' @ dec_fixed 2 (nat m) @ ''-'' @ dec_fixed 2 (nat d))) =
           Some (make_day y (m - 1) d * ms_per_day)"
proof -
  have m': "0 \<le> m - 1" "m - 1 \<le> 11" using m by simp_all
  note w = make_day_within_year [OF m' d]
  have "\<bar>make_day y (m - 1) d * ms_per_day\<bar> \<le> 8640000000000000"
    using w(1,2) day_from_year_4digit [OF y] by (simp add: ms_per_day_def abs_le_iff)
  then show ?thesis
    using date_parse_ymd [OF y m d, of env] by (simp add: new_date_def make_date_def)
qed

declare local_time_def [js_simps] utc_def [js_simps] lit_def [js_simps] take_num_def [js_simps]
  iso_date_part_def [js_simps] iso_seconds_def [js_simps] iso_offset_part_def [js_simps]
  iso_parse_def [js_simps] iso_valid_def [js_simps] iso_time_value_def [js_simps]
  date_parse_def [js_simps] new_date_def [js_simps] date_now_obj_def [js_simps]
  time_clip_def [js_simps]

lemma date_getters_Some [simp, js_simps]:
  "get_full_year env (Some t) = Some (year_from_time (local_time env t))"
  "get_month env (Some t) = Some (month_from_time (local_time env t))"
  "get_date env (Some t) = Some (date_from_time (local_time env t))"
  "get_day env (Some t) = Some (week_day (local_time env t))"
  by (simp_all add: get_full_year_def get_month_def get_date_def get_day_def)

lemma date_getters_None [simp, js_simps]:
  "get_full_year env None = None" "get_month env None = None"
  "get_date env None = None" "get_day env None = None"
  by (simp_all add: get_full_year_def get_month_def get_date_def get_day_def)

lemma set_hours_midnight_Some [simp, js_simps]:
  "set_hours_midnight env (Some t) =
     time_clip (Some (utc env (make_date (day (local_time env t)) (make_time 0 0 0 0))))"
  "set_hours_midnight env None = None"
  by (simp_all add: set_hours_midnight_def)

lemma set_date_Some [simp, js_simps]:
  "set_date env (Some t) (Some d) =
     time_clip (Some (utc env (make_date (make_day (year_from_time (local_time env t))
       (month_from_time (local_time env t)) d) (time_within_day (local_time env t)))))"
  "set_date env None dt = None" "set_date env tv None = None"
  by (simp_all add: set_date_def Let_def split: option.splits)

section \<open>Lemmas on the setters\<close>

lemma make_day_add_date: "make_day y m (d + k) = make_day y m d + k"
  by (simp add: make_day_def Let_def)

lemma local_utc [simp]: "utc env (local_time env t) = t" "local_time env (utc env t) = t"
  by (simp_all add: local_time_def utc_def)

text \<open>\<open>setDate(getDate() + k)\<close> moves a date by \<open>k\<close> whole days and keeps its
  local time of day; the day may leave the month (\<open>MakeDay\<close> carries over).\<close>

lemma set_date_shift:
  "set_date env (Some t) (Some (date_from_time (local_time env t) + k)) =
     time_clip (Some (t + k * ms_per_day))"
proof -
  let ?lt = "local_time env t"
  have "make_day (year_from_time ?lt) (month_from_time ?lt) (date_from_time ?lt + k) = day ?lt + k"
    by (simp add: make_day_add_date make_day_of_time)
  moreover have "make_date (day ?lt + k) (time_within_day ?lt) = ?lt + k * ms_per_day"
    by (simp add: make_date_def day_def time_within_day_def algebra_simps)
  ultimately show ?thesis by (simp add: utc_def local_time_def algebra_simps)
qed

text \<open>\<open>setHours(0, 0, 0, 0)\<close> gives local midnight; a time value lies before it
  exactly when its local day is an earlier day.\<close>

lemma set_hours_midnight_value:
  "set_hours_midnight env (Some n) = time_clip (Some (day (local_time env n) * ms_per_day - tz_offset env))"
  by (simp add: make_date_def make_time_def utc_def)

lemma before_midnight_iff:
  "t < day (local_time env n) * ms_per_day - tz_offset env \<longleftrightarrow> day (local_time env t) < day (local_time env n)"
  by (simp add: day_def local_time_def ms_per_day_def) linarith

text \<open>The local getters of a valid date return values in their ranges: the
  month 0 to 11, the date 1 to the length of that month (at most 31) and the
  day of the week 0 (Sunday) to 6. \<open>displayPrettyDate\<close> relies on these ranges
  for \<open>(currentMonth + 1) % 12\<close> and for the week start
  \<open>getDate() - getDay()\<close>.\<close>

lemma local_getters_bounds:
  "(\<exists>m. get_month env (Some t) = Some m \<and> 0 \<le> m \<and> m \<le> 11) \<and>
   (\<exists>d. get_date env (Some t) = Some d \<and> 1 \<le> d \<and>
      d \<le> days_in_month (year_from_time (local_time env t)) (month_from_time (local_time env t)) \<and> d \<le> 31) \<and>
   (\<exists>w. get_day env (Some t) = Some w \<and> 0 \<le> w \<and> w \<le> 6)"
proof (intro conjI)
  let ?lt = "local_time env t"
  show "\<exists>m. get_month env (Some t) = Some m \<and> 0 \<le> m \<and> m \<le> 11"
    using month_from_time_range [of ?lt] by simp
  show "\<exists>d. get_date env (Some t) = Some d \<and> 1 \<le> d \<and>
      d \<le> days_in_month (year_from_time ?lt) (month_from_time ?lt) \<and> d \<le> 31"
    using date_from_time_range [of ?lt] days_in_month_le_31 [of "year_from_time ?lt" "month_from_time ?lt"]
    by simp
  show "\<exists>w. get_day env (Some t) = Some w \<and> 0 \<le> w \<and> w \<le> 6"
    by (simp add: week_day_def)
qed


end
