(* ===== verification/Intl.thy ===== *)
theory Intl
  imports JS_Date
begin

text \<open>
  \<open>Date.prototype.toLocaleDateString\<close> for the locales and option sets the
  sources use (ECMA-402, with the CLDR data the host ships). The fields are the
  local year, month and date of the time value in the proleptic Gregorian
  calendar; an invalid date prints \<open>"Invalid Date"\<close>. The patterns are CLDR's:
  \<^item> af-ZA, year, short month and day: \<open>d MMM y\<close>, e.g. \<open>15 Mrt. 2024\<close>;
  \<^item> af-ZA, short month and day: \<open>d MMM\<close>; short month and year: \<open>MMM y\<close>;
  \<^item> en-CA with the default options (numeric year, 2-digit month and day):
    \<open>y-MM-dd\<close>, e.g. \<open>2024-03-15\<close>.
  The numeric year is the year of the era, unpadded (\<open>y\<close>): year 0 and the
  years before it print as 1, 2, ... (the era designator is not part of these
  patterns).
\<close>

definition af_month_short :: "int \<Rightarrow> string" where
  "af_month_short m = [''Jan.'', ''Feb.'', ''Mrt.'', ''Apr.'', ''Mei'', ''Jun.'', ''Jul.'', ''Aug.'',
     ''Sep.'', ''Okt.'', ''Nov.'', ''Des.''] ! nat m"

definition era_year :: "int \<Rightarrow> nat" where
  "era_year y = (if 0 < y then nat y else nat (1 - y))"

definition locale_date :: "date_env \<Rightarrow> (int \<Rightarrow> int \<Rightarrow> int \<Rightarrow> string) \<Rightarrow> int option \<Rightarrow> string" where
  "locale_date env pat tv =
     (case tv of None \<Rightarrow> ''Invalid Date''
      | Some t \<Rightarrow> (let lt = local_time env t in
                   pat (year_from_time lt) (month_from_time lt) (date_from_time lt)))"

text \<open>\<open>toLocaleDateString("af-ZA", {year: "numeric", month: "short", day: "numeric"})\<close>\<close>

definition af_dmy :: "date_env \<Rightarrow> int option \<Rightarrow> string" where
  "af_dmy env = locale_date env (\<lambda>y m d. nat_dec (nat d) @ '' '' @ af_month_short m @ '' '' @ nat_dec (era_year y))"

text \<open>\<open>toLocaleDateString("af-ZA", {month: "short", day: "numeric"})\<close>\<close>

definition af_dm :: "date_env \<Rightarrow> int option \<Rightarrow> string" where
  "af_dm env = locale_date env (\<lambda>y m d. nat_dec (nat d) @ '' '' @ af_month_short m)"

text \<open>\<open>toLocaleDateString("af-ZA", {month: "short", year: "numeric"})\<close>\<close>

definition af_my :: "date_env \<Rightarrow> int option \<Rightarrow> string" where
  "af_my env = locale_date env (\<lambda>y m d. af_month_short m @ '' '' @ nat_dec (era_year y))"

text \<open>\<open>toLocaleDateString("en-CA")\<close>\<close>

definition en_ca :: "date_env \<Rightarrow> int option \<Rightarrow> string" where
  "en_ca env = locale_date env
     (\<lambda>y m d. nat_dec (era_year y) @ ''-'' @ dec_fixed 2 (nat (m + 1)) @ ''-'' @ dec_fixed 2 (nat d))"

declare af_month_short_def [js_simps] era_year_def [js_simps]
  af_dmy_def [js_simps] af_dm_def [js_simps] af_my_def [js_simps] en_ca_def [js_simps]

lemma locale_date_None [simp]: "locale_date env pat None = ''Invalid Date''"
  by (simp add: locale_date_def)

lemma locale_date_Some [simp]:
  "locale_date env pat (Some t) =
     pat (year_from_time (local_time env t)) (month_from_time (local_time env t))
         (date_from_time (local_time env t))"
  by (simp add: locale_date_def Let_def)

end
