(* ===== verification/Date_Format.thy ===== *)
theory Date_Format
  imports Intl
begin

text \<open>
  The three formatting helpers of \<open>src/src/lib/index.js\<close>:
  \<open>displayDate({due_date, start_date})\<close> (lines 6--53), \<open>displayDateShort(date)\<close>
  (lines 55--62) and \<open>formatDate(date)\<close> (lines 67--71). Each takes the host
  environment (time zone and parser fallback) as its first argument; the argument
  object of \<open>displayDate\<close> is a record with the two fields it destructures.
  The lemmas give the result of every branch in terms of the local calendar
  fields of the dates, show that \<open>formatDate\<close> tells two dates apart exactly when
  their local calendar days differ, and that parsing its output gives back
  midnight UTC of that calendar day: the fact \<open>displayPrettyDate\<close> depends on.
\<close>

record date_range =
  due_date :: jsval
  start_date :: jsval

definition displayDate :: "date_env \<Rightarrow> 'a date_range_scheme \<Rightarrow> string" where
  "displayDate env a =
     (if \<not> truthy (due_date a) then ''''
      else if \<not> truthy (start_date a) then af_dmy env (new_date env (due_date a))
      else
        (let startDate = new_date env (start_date a);
             dueDate = new_date env (due_date a);
             startYear = get_full_year env startDate;
             dueYear = get_full_year env dueDate;
             startMonth = get_month env startDate;
             dueMonth = get_month env dueDate
         in if num_eq startDate dueDate then af_dmy env startDate
            else if num_eq startYear dueYear \<and> num_eq startMonth dueMonth then
              number_to_string (get_date env startDate) @ ''-'' @
              number_to_string (get_date env dueDate) @ '' '' @ af_my env startDate
            else if num_eq startYear dueYear then
              af_dm env startDate @ '' - '' @ af_dmy env dueDate
            else af_dmy env startDate @ '' - '' @ af_dmy env dueDate))"

definition displayDateShort :: "date_env \<Rightarrow> jsval \<Rightarrow> string" where
  "displayDateShort env date = (if \<not> truthy date then '''' else af_dm env (new_date env date))"

definition formatDate :: "date_env \<Rightarrow> jsval \<Rightarrow> jsval" where
  "formatDate env date = (if \<not> truthy date then JNum (Some 0) else JStr (en_ca env (new_date env date)))"

section \<open>Shared facts\<close>

lemmas date_eval = js_simps calendar_simps digits_val_def digit_val_def dec_eval

abbreviation local_ymd :: "date_env \<Rightarrow> int \<Rightarrow> int \<times> int \<times> int" where
  "local_ymd env t \<equiv> (year_from_time (local_time env t), month_from_time (local_time env t),
                      date_from_time (local_time env t))"

text \<open>The local calendar day of a time value, as a day number.\<close>

definition local_day :: "date_env \<Rightarrow> int \<Rightarrow> int" where
  "local_day env t = day (local_time env t)"

lemma local_ymd_eq_iff: "local_ymd env t = local_ymd env u \<longleftrightarrow> local_day env t = local_day env u"
proof
  assume "local_ymd env t = local_ymd env u"
  then show "local_day env t = local_day env u"
    by (metis local_day_def make_day_of_time prod.inject)
next
  assume "local_day env t = local_day env u"
  then show "local_ymd env t = local_ymd env u"
    using fields_of_same_day [of "local_time env t" "local_time env u"]
    by (simp add: local_day_def)
qed

lemma era_year_inj: "0 < y \<Longrightarrow> 0 < y' \<Longrightarrow> era_year y = era_year y' \<longleftrightarrow> y = y'"
  by (simp add: era_year_def eq_nat_nat_iff)

lemma en_ca_Some_eq:
  assumes "0 < year_from_time (local_time env t)" "0 < year_from_time (local_time env u)"
  shows "en_ca env (Some t) = en_ca env (Some u) \<longleftrightarrow> local_day env t = local_day env u"
proof -
  let ?m = "\<lambda>t. month_from_time (local_time env t)" and ?d = "\<lambda>t. date_from_time (local_time env t)"
  have m: "0 \<le> ?m t" "?m t \<le> 11" "0 \<le> ?m u" "?m u \<le> 11"
    using month_from_time_range by blast+
  have d: "1 \<le> ?d t" "?d t \<le> 31" "1 \<le> ?d u" "?d u \<le> 31"
    using date_from_time_range [of "local_time env t"] date_from_time_range [of "local_time env u"]
    by (simp_all add: days_in_month_def month_length_def leap_flag_def split: if_splits)
  have fm: "dec_fixed 2 (nat (?m t + 1)) = dec_fixed 2 (nat (?m u + 1)) \<longleftrightarrow> ?m t = ?m u"
  proof -
    have "nat (?m t + 1) < 10 ^ 2" "nat (?m u + 1) < 10 ^ 2" using m by simp_all
    then have "dec_fixed 2 (nat (?m t + 1)) = dec_fixed 2 (nat (?m u + 1)) \<longleftrightarrow>
        nat (?m t + 1) = nat (?m u + 1)" by (simp only: dec_fixed_inj zero_less_numeral)
    with m show ?thesis by (simp add: eq_nat_nat_iff)
  qed
  have fd: "dec_fixed 2 (nat (?d t)) = dec_fixed 2 (nat (?d u)) \<longleftrightarrow> ?d t = ?d u"
  proof -
    have "nat (?d t) < 10 ^ 2" "nat (?d u) < 10 ^ 2" using d by simp_all
    then have "dec_fixed 2 (nat (?d t)) = dec_fixed 2 (nat (?d u)) \<longleftrightarrow> nat (?d t) = nat (?d u)"
      by (simp only: dec_fixed_inj zero_less_numeral)
    with d show ?thesis by (simp add: eq_nat_nat_iff)
  qed
  have "en_ca env (Some t) = en_ca env (Some u) \<longleftrightarrow>
      nat_dec (era_year (year_from_time (local_time env t))) =
        nat_dec (era_year (year_from_time (local_time env u))) \<and>
      dec_fixed 2 (nat (?m t + 1)) = dec_fixed 2 (nat (?m u + 1)) \<and>
      dec_fixed 2 (nat (?d t)) = dec_fixed 2 (nat (?d u))"
    by (simp add: en_ca_def append_sep_eq del: nat_dec_inj)
  also have "\<dots> \<longleftrightarrow> local_ymd env t = local_ymd env u"
    using assms fm fd by (simp add: era_year_inj)
  finally show ?thesis by (simp only: local_ymd_eq_iff)
qed

lemma local_day_range:
  assumes "1000 \<le> year_from_time (local_time env t)" "year_from_time (local_time env t) \<le> 9999"
  shows "-354285 \<le> local_day env t" "local_day env t < 2932897"
proof -
  let ?y = "year_from_time (local_time env t)"
  have b: "day_from_year ?y \<le> local_day env t" "local_day env t < day_from_year (?y + 1)"
    using year_from_day_bounds [of "day (local_time env t)"]
    by (simp_all add: local_day_def year_from_time_def)
  have "day_from_year 1000 \<le> day_from_year ?y" "day_from_year (?y + 1) \<le> day_from_year 10000"
    using assms by simp_all
  moreover have "day_from_year 1000 = -354285" "day_from_year 10000 = 2932897"
    by (simp_all add: day_from_year_def)
  ultimately show "-354285 \<le> local_day env t" "local_day env t < 2932897"
    using b by linarith+
qed


lemma en_ca_four_digit_year:
  assumes "1000 \<le> year_from_time (local_time env t)" "year_from_time (local_time env t) \<le> 9999"
  shows "en_ca env (Some t) =
    dec_fixed 4 (nat (year_from_time (local_time env t))) @ ''-'' @
    dec_fixed 2 (nat (month_from_time (local_time env t) + 1)) @ ''-'' @
    dec_fixed 2 (nat (date_from_time (local_time env t)))"
proof -
  let ?y = "year_from_time (local_time env t)"
  have "nat_dec (nat ?y) = dec_fixed 4 (nat ?y)"
    by (rule nat_dec_dec_fixed) (use assms in simp_all)
  with assms show ?thesis by (simp add: en_ca_def era_year_def)
qed

lemma parse_en_ca:
  assumes y: "1000 \<le> year_from_time (local_time env t)" "year_from_time (local_time env t) \<le> 9999"
  shows "new_date env (JStr (en_ca env (Some t))) = Some (local_day env t * ms_per_day)"
proof -
  let ?lt = "local_time env t"
  let ?y = "year_from_time ?lt" and ?m = "month_from_time ?lt" and ?d = "date_from_time ?lt"
  have m: "1 \<le> ?m + 1" "?m + 1 \<le> 12" using month_from_time_range [of ?lt] by simp_all
  have d: "1 \<le> ?d" "?d \<le> days_in_month ?y (?m + 1 - 1)" using date_from_time_range [of ?lt] by simp_all
  have "date_parse env (en_ca env (Some t)) = Some (make_date (make_day ?y ?m ?d) 0)"
    using date_parse_ymd [OF y m d, of env] by (simp add: en_ca_four_digit_year [OF y])
  also have "make_date (make_day ?y ?m ?d) 0 = local_day env t * ms_per_day"
    by (simp add: make_date_def make_day_of_time local_day_def)
  finally have p: "date_parse env (en_ca env (Some t)) = Some (local_day env t * ms_per_day)" .
  have "\<bar>local_day env t * ms_per_day\<bar> \<le> 8640000000000000"
    using local_day_range [OF y] by (simp add: ms_per_day_def abs_le_iff)
  then show ?thesis using p by (simp add: new_date_def)
qed

text \<open>C4: parsing the output of \<open>formatDate\<close> gives midnight UTC of the local
  calendar day of the date (for four-digit years, which the date time string
  format requires).\<close>

theorem formatDate_parse_roundtrip:
  assumes v: "truthy v" "new_date env v = Some t"
    and y: "1000 \<le> year_from_time (local_time env t)" "year_from_time (local_time env t) \<le> 9999"
  shows "new_date env (formatDate env v) = Some (local_day env t * ms_per_day)"
  using v parse_en_ca [OF y] by (simp add: formatDate_def)

text \<open>C5: two truthy dates with valid time values in years of the current era get
  strictly equal \<open>formatDate\<close> results exactly when they fall on the same local
  calendar day.\<close>

theorem formatDate_same_day_iff:
  assumes "truthy v" "new_date env v = Some t" "truthy w" "new_date env w = Some u"
    and "0 < year_from_time (local_time env t)" "0 < year_from_time (local_time env u)"
  shows "js_strict_eq (formatDate env v) (formatDate env w) \<longleftrightarrow> local_day env t = local_day env u"
  using assms en_ca_Some_eq [of env t u] by (simp add: formatDate_def)


theorem formatDate_parse_roundtrip_witness:
  "truthy (JStr ''2024-03-15'') \<and> new_date env_za (JStr ''2024-03-15'') = Some 1710460800000 \<and>
   1000 \<le> year_from_time (local_time env_za 1710460800000) \<and>
   year_from_time (local_time env_za 1710460800000) \<le> 9999 \<and>
   new_date env_za (formatDate env_za (JStr ''2024-03-15'')) = Some (local_day env_za 1710460800000 * ms_per_day)"
proof -
  have h: "truthy (JStr ''2024-03-15'')" "new_date env_za (JStr ''2024-03-15'') = Some 1710460800000"
    "1000 \<le> year_from_time (local_time env_za 1710460800000)"
    "year_from_time (local_time env_za 1710460800000) \<le> 9999"
    by (simp_all add: date_eval)
  show ?thesis using h formatDate_parse_roundtrip [OF h] by simp
qed

theorem formatDate_same_day_iff_witness:
  "truthy (JNum (Some 1710460800000)) \<and> new_date env_za (JNum (Some 1710460800000)) = Some 1710460800000 \<and>
   truthy (JStr ''2024-03-15T23:59'') \<and> new_date env_za (JStr ''2024-03-15T23:59'') = Some 1710539940000 \<and>
   0 < year_from_time (local_time env_za 1710460800000) \<and> 0 < year_from_time (local_time env_za 1710539940000) \<and>
   js_strict_eq (formatDate env_za (JNum (Some 1710460800000))) (formatDate env_za (JStr ''2024-03-15T23:59''))"
proof -
  have h: "truthy (JNum (Some 1710460800000))" "new_date env_za (JNum (Some 1710460800000)) = Some 1710460800000"
    "truthy (JStr ''2024-03-15T23:59'')" "new_date env_za (JStr ''2024-03-15T23:59'') = Some 1710539940000"
    "0 < year_from_time (local_time env_za 1710460800000)" "0 < year_from_time (local_time env_za 1710539940000)"
    by (simp_all add: date_eval)
  have "local_day env_za 1710460800000 = local_day env_za 1710539940000"
    by (simp add: local_day_def date_eval)
  then show ?thesis using h formatDate_same_day_iff [OF h] by simp
qed

section \<open>displayDate, branch by branch\<close>

text \<open>The text of one date in the \<open>d MMM y\<close> pattern, from its local fields.\<close>

abbreviation dmy_text :: "date_env \<Rightarrow> int \<Rightarrow> string" where
  "dmy_text env t \<equiv> nat_dec (nat (date_from_time (local_time env t))) @ '' '' @
     af_month_short (month_from_time (local_time env t)) @ '' '' @
     nat_dec (era_year (year_from_time (local_time env t)))"

lemma date_from_time_pos: "0 \<le> date_from_time t"
  using date_from_time_range(1) [of t] by simp

lemma displayDate_both:
  assumes "truthy (due_date a)" "truthy (start_date a)"
  shows "displayDate env a =
    (let startDate = new_date env (start_date a); dueDate = new_date env (due_date a) in
     if num_eq startDate dueDate then af_dmy env startDate
     else if num_eq (get_full_year env startDate) (get_full_year env dueDate) \<and>
             num_eq (get_month env startDate) (get_month env dueDate) then
       number_to_string (get_date env startDate) @ ''-'' @ number_to_string (get_date env dueDate) @
       '' '' @ af_my env startDate
     else if num_eq (get_full_year env startDate) (get_full_year env dueDate) then
       af_dm env startDate @ '' - '' @ af_dmy env dueDate
     else af_dmy env startDate @ '' - '' @ af_dmy env dueDate)"
  using assms by (simp add: displayDate_def Let_def)

text \<open>C6: with a start and a due date that are different instants in the same
  local month, \<open>displayDate\<close> prints the day range followed by the shared month
  and year, as in "1-15 Mrt. 2024".\<close>

theorem displayDate_same_month:
  assumes "truthy (due_date a)" "truthy (start_date a)"
    and "new_date env (start_date a) = Some s" "new_date env (due_date a) = Some d" "s \<noteq> d"
    and "year_from_time (local_time env s) = year_from_time (local_time env d)"
    and "month_from_time (local_time env s) = month_from_time (local_time env d)"
  shows "displayDate env a =
    nat_dec (nat (date_from_time (local_time env s))) @ ''-'' @
    nat_dec (nat (date_from_time (local_time env d))) @ '' '' @
    af_month_short (month_from_time (local_time env s)) @ '' '' @
    nat_dec (era_year (year_from_time (local_time env s)))"
  using assms by (simp add: displayDate_both get_full_year_def get_month_def get_date_def
      number_to_string_def date_from_time_pos af_my_def)

text \<open>C7: different instants in the same local year but different months print as
  "d MMM - d MMM y": the year only once, after the due date.\<close>

theorem displayDate_same_year:
  assumes "truthy (due_date a)" "truthy (start_date a)"
    and "new_date env (start_date a) = Some s" "new_date env (due_date a) = Some d"
    and "year_from_time (local_time env s) = year_from_time (local_time env d)"
    and "month_from_time (local_time env s) \<noteq> month_from_time (local_time env d)"
  shows "displayDate env a =
    nat_dec (nat (date_from_time (local_time env s))) @ '' '' @
    af_month_short (month_from_time (local_time env s)) @ '' - '' @ dmy_text env d"
proof -
  have "s \<noteq> d" using assms(6) by auto
  then show ?thesis
    using assms by (simp add: displayDate_both get_full_year_def get_month_def af_dm_def af_dmy_def)
qed

text \<open>C8: dates in different local years print both in full, joined by " - ".\<close>

theorem displayDate_different_years:
  assumes "truthy (due_date a)" "truthy (start_date a)"
    and "new_date env (start_date a) = Some s" "new_date env (due_date a) = Some d"
    and "year_from_time (local_time env s) \<noteq> year_from_time (local_time env d)"
  shows "displayDate env a = dmy_text env s @ '' - '' @ dmy_text env d"
proof -
  have "s \<noteq> d" using assms(5) by auto
  then show ?thesis
    using assms by (simp add: displayDate_both get_full_year_def get_month_def af_dmy_def)
qed

text \<open>C9: without a start date, or with a start date at the same instant, the due
  date alone is printed in the "d MMM y" pattern.\<close>

theorem displayDate_single_date:
  assumes "truthy (due_date a)" "new_date env (due_date a) = Some d"
    and "\<not> truthy (start_date a) \<or> new_date env (start_date a) = Some d"
  shows "displayDate env a = dmy_text env d"
  using assms by (auto simp add: displayDate_def af_dmy_def Let_def)

text \<open>C10: two invalid dates are never "the same date" (\<open>NaN === NaN\<close> is false):
  the result is "Invalid Date - Invalid Date".\<close>

theorem displayDate_invalid_dates:
  assumes "truthy (due_date a)" "truthy (start_date a)"
    and "new_date env (start_date a) = None" "new_date env (due_date a) = None"
  shows "displayDate env a = ''Invalid Date - Invalid Date''"
  using assms by (simp add: displayDate_both get_full_year_def af_dmy_def)

section \<open>Date-only strings and the time zone\<close>

text \<open>A stored due date \<open>"YYYY-MM-DD"\<close> is parsed as midnight UTC and printed in
  local time. East of UTC (or on it) the local calendar day is the stored one.\<close>

lemma local_day_utc_midnight:
  assumes "0 \<le> tz_offset env" "tz_offset env < ms_per_day"
  shows "local_day env (D * ms_per_day) = D"
proof -
  have "(D * ms_per_day + tz_offset env) div ms_per_day = D + tz_offset env div ms_per_day"
    by (simp add: ms_per_day_def)
  also have "tz_offset env div ms_per_day = 0" using assms by simp
  finally show ?thesis by (simp add: local_day_def local_time_def day_def)
qed

lemma local_day_utc_midnight_west:
  assumes "- ms_per_day < tz_offset env" "tz_offset env < 0"
  shows "local_day env (D * ms_per_day) = D - 1"
  using assms unfolding local_day_def local_time_def day_def ms_per_day_def by linarith

abbreviation iso_date_text :: "int \<Rightarrow> int \<Rightarrow> int \<Rightarrow> string" where
  "iso_date_text y m d \<equiv> dec_fixed 4 (nat y) @ ''-'' @ dec_fixed 2 (nat m) @ ''-'' @ dec_fixed 2 (nat d)"

lemma iso_date_fields:
  assumes y: "1000 \<le> y" "y \<le> 9999" and m: "1 \<le> m" "m \<le> 12"
    and d: "1 \<le> d" "d \<le> days_in_month y (m - 1)"
    and tz: "0 \<le> tz_offset env" "tz_offset env < ms_per_day"
  shows "new_date env (JStr (iso_date_text y m d)) = Some (make_day y (m - 1) d * ms_per_day)"
    and "year_from_time (local_time env (make_day y (m - 1) d * ms_per_day)) = y"
    and "month_from_time (local_time env (make_day y (m - 1) d * ms_per_day)) = m - 1"
    and "date_from_time (local_time env (make_day y (m - 1) d * ms_per_day)) = d"
proof -
  have m': "0 \<le> m - 1" "m - 1 \<le> 11" using m by simp_all
  show "new_date env (JStr (iso_date_text y m d)) = Some (make_day y (m - 1) d * ms_per_day)"
    by (rule new_date_date_only [OF y m d])
  have "day (local_time env (make_day y (m - 1) d * ms_per_day)) = make_day y (m - 1) d"
    using local_day_utc_midnight [OF tz] by (simp add: local_day_def)
  note f = time_of_make_day [OF m' d this]
  show "year_from_time (local_time env (make_day y (m - 1) d * ms_per_day)) = y" by (rule f(1))
  show "month_from_time (local_time env (make_day y (m - 1) d * ms_per_day)) = m - 1" by (rule f(2))
  show "date_from_time (local_time env (make_day y (m - 1) d * ms_per_day)) = d" by (rule f(3))
qed

text \<open>C11: in a time zone at or east of UTC, a due date stored as \<open>"YYYY-MM-DD"\<close>
  (four-digit year, valid month and day) with no start date is displayed as that
  same calendar date, "d MMM y".\<close>

theorem displayDate_date_only:
  assumes y: "1000 \<le> y" "y \<le> 9999" and m: "1 \<le> m" "m \<le> 12"
    and d: "1 \<le> d" "d \<le> days_in_month y (m - 1)"
    and tz: "0 \<le> tz_offset env" "tz_offset env < ms_per_day"
  shows "displayDate env \<lparr>due_date = JStr (iso_date_text y m d), start_date = JNull\<rparr> =
    nat_dec (nat d) @ '' '' @ af_month_short (m - 1) @ '' '' @ nat_dec (nat y)"
proof -
  have "truthy (JStr (iso_date_text y m d))" by simp
  then show ?thesis
    using iso_date_fields [OF y m d tz] y by (simp add: displayDate_def af_dmy_def era_year_def)
qed

section \<open>Instances\<close>

definition range_mar :: date_range where
  "range_mar = \<lparr>due_date = JStr ''2024-03-15'', start_date = JStr ''2024-03-01''\<rparr>"

definition range_mar_apr :: date_range where
  "range_mar_apr = \<lparr>due_date = JStr ''2024-04-01'', start_date = JStr ''2024-03-01''\<rparr>"

definition range_new_year :: date_range where
  "range_new_year = \<lparr>due_date = JStr ''2024-01-01'', start_date = JStr ''2023-12-31''\<rparr>"

lemma range_simps [simp]:
  "due_date range_mar = JStr ''2024-03-15''" "start_date range_mar = JStr ''2024-03-01''"
  "due_date range_mar_apr = JStr ''2024-04-01''" "start_date range_mar_apr = JStr ''2024-03-01''"
  "due_date range_new_year = JStr ''2024-01-01''" "start_date range_new_year = JStr ''2023-12-31''"
  by (simp_all add: range_mar_def range_mar_apr_def range_new_year_def)

theorem displayDate_same_month_witness:
  "truthy (due_date range_mar) \<and> truthy (start_date range_mar) \<and>
   new_date env_za (start_date range_mar) = Some 1709251200000 \<and>
   new_date env_za (due_date range_mar) = Some 1710460800000 \<and> (1709251200000::int) \<noteq> 1710460800000 \<and>
   year_from_time (local_time env_za 1709251200000) = year_from_time (local_time env_za 1710460800000) \<and>
   month_from_time (local_time env_za 1709251200000) = month_from_time (local_time env_za 1710460800000) \<and>
   displayDate env_za range_mar = ''1-15 Mrt. 2024''"
proof -
  have h: "truthy (due_date range_mar)" "truthy (start_date range_mar)"
    "new_date env_za (start_date range_mar) = Some 1709251200000"
    "new_date env_za (due_date range_mar) = Some 1710460800000" "(1709251200000::int) \<noteq> 1710460800000"
    "year_from_time (local_time env_za 1709251200000) = year_from_time (local_time env_za 1710460800000)"
    "month_from_time (local_time env_za 1709251200000) = month_from_time (local_time env_za 1710460800000)"
    by (simp_all add: date_eval)
  show ?thesis using h displayDate_same_month [OF h] by (simp add: date_eval)
qed

theorem displayDate_same_year_witness:
  "truthy (due_date range_mar_apr) \<and> truthy (start_date range_mar_apr) \<and>
   new_date env_za (start_date range_mar_apr) = Some 1709251200000 \<and>
   new_date env_za (due_date range_mar_apr) = Some 1711929600000 \<and>
   year_from_time (local_time env_za 1709251200000) = year_from_time (local_time env_za 1711929600000) \<and>
   month_from_time (local_time env_za 1709251200000) \<noteq> month_from_time (local_time env_za 1711929600000) \<and>
   displayDate env_za range_mar_apr = ''1 Mrt. - 1 Apr. 2024''"
proof -
  have h: "truthy (due_date range_mar_apr)" "truthy (start_date range_mar_apr)"
    "new_date env_za (start_date range_mar_apr) = Some 1709251200000"
    "new_date env_za (due_date range_mar_apr) = Some 1711929600000"
    "year_from_time (local_time env_za 1709251200000) = year_from_time (local_time env_za 1711929600000)"
    "month_from_time (local_time env_za 1709251200000) \<noteq> month_from_time (local_time env_za 1711929600000)"
    by (simp_all add: date_eval)
  show ?thesis using h displayDate_same_year [OF h] by (simp add: date_eval)
qed

theorem displayDate_different_years_witness:
  "truthy (due_date range_new_year) \<and> truthy (start_date range_new_year) \<and>
   new_date env_za (start_date range_new_year) = Some 1703980800000 \<and>
   new_date env_za (due_date range_new_year) = Some 1704067200000 \<and>
   year_from_time (local_time env_za 1703980800000) \<noteq> year_from_time (local_time env_za 1704067200000) \<and>
   displayDate env_za range_new_year = ''31 Des. 2023 - 1 Jan. 2024''"
proof -
  have h: "truthy (due_date range_new_year)" "truthy (start_date range_new_year)"
    "new_date env_za (start_date range_new_year) = Some 1703980800000"
    "new_date env_za (due_date range_new_year) = Some 1704067200000"
    "year_from_time (local_time env_za 1703980800000) \<noteq> year_from_time (local_time env_za 1704067200000)"
    by (simp_all add: date_eval)
  show ?thesis using h displayDate_different_years [OF h] by (simp add: date_eval)
qed

theorem displayDate_single_date_witness:
  "truthy (JStr ''2024-03-15'') \<and> new_date env_za (JStr ''2024-03-15'') = Some 1710460800000 \<and>
   \<not> truthy JNull \<and>
   displayDate env_za \<lparr>due_date = JStr ''2024-03-15'', start_date = JNull\<rparr> = ''15 Mrt. 2024''"
proof -
  have h: "truthy (due_date \<lparr>due_date = JStr ''2024-03-15'', start_date = JNull\<rparr>)"
    "new_date env_za (due_date \<lparr>due_date = JStr ''2024-03-15'', start_date = JNull\<rparr>) = Some 1710460800000"
    "\<not> truthy (start_date \<lparr>due_date = JStr ''2024-03-15'', start_date = JNull\<rparr>) \<or>
     new_date env_za (start_date \<lparr>due_date = JStr ''2024-03-15'', start_date = JNull\<rparr>) = Some 1710460800000"
    by (simp_all add: date_eval)
  show ?thesis using h displayDate_single_date [OF h] by (simp add: date_eval)
qed

theorem displayDate_invalid_dates_witness:
  "truthy (JStr ''2024-02-30'') \<and> truthy (JStr ''2024-13-01'') \<and>
   new_date env_za (JStr ''2024-13-01'') = None \<and> new_date env_za (JStr ''2024-02-30'') = None \<and>
   displayDate env_za \<lparr>due_date = JStr ''2024-02-30'', start_date = JStr ''2024-13-01''\<rparr> =
     ''Invalid Date - Invalid Date''"
proof -
  let ?a = "\<lparr>due_date = JStr ''2024-02-30'', start_date = JStr ''2024-13-01''\<rparr>"
  have h: "truthy (due_date ?a)" "truthy (start_date ?a)"
    "new_date env_za (start_date ?a) = None" "new_date env_za (due_date ?a) = None"
    by (simp_all add: date_eval)
  show ?thesis using h displayDate_invalid_dates [OF h] by simp
qed

text \<open>A host at UTC-05:00 without daylight saving.\<close>

definition env_west :: date_env where
  "env_west = \<lparr>tz_offset = -18000000, tz_name = '''', legacy_parse = (\<lambda>_. None)\<rparr>"

lemma env_west_simps [simp]:
  "tz_offset env_west = -18000000" "legacy_parse env_west s = None"
  by (simp_all add: env_west_def)

text \<open>C12: west of UTC (offset strictly between minus one day and zero), a due
  date stored as \<open>"YYYY-MM-DD"\<close> (four-digit year, valid month and day) with no
  start date is displayed as the calendar date of the day before: the date,
  short month and year of \<open>MakeDay(y, m - 1, d) - 1\<close>.\<close>

theorem displayDate_date_only_west:
  assumes y: "1000 \<le> y" "y \<le> 9999" and m: "1 \<le> m" "m \<le> 12"
    and d: "1 \<le> d" "d \<le> days_in_month y (m - 1)"
    and tz: "- ms_per_day < tz_offset env" "tz_offset env < 0"
  shows "displayDate env \<lparr>due_date = JStr (iso_date_text y m d), start_date = JNull\<rparr> =
    nat_dec (nat (date_from_time ((make_day y (m - 1) d - 1) * ms_per_day))) @ '' '' @
    af_month_short (month_from_time ((make_day y (m - 1) d - 1) * ms_per_day)) @ '' '' @
    nat_dec (era_year (year_from_time ((make_day y (m - 1) d - 1) * ms_per_day)))"
proof -
  let ?T = "make_day y (m - 1) d * ms_per_day" and ?P = "(make_day y (m - 1) d - 1) * ms_per_day"
  have nd: "new_date env (JStr (iso_date_text y m d)) = Some ?T"
    by (rule new_date_date_only [OF y m d])
  have "day (local_time env ?T) = day ?P"
    using local_day_utc_midnight_west [OF tz] by (simp add: local_day_def day_def ms_per_day_def)
  note f = fields_of_same_day [OF this]
  have "truthy (JStr (iso_date_text y m d))" by simp
  then show ?thesis using nd f by (simp add: displayDate_def af_dmy_def)
qed

theorem displayDate_date_only_west_witness:
  "displayDate env_west \<lparr>due_date = JStr (iso_date_text 2024 3 1), start_date = JNull\<rparr> = ''29 Feb. 2024''"
proof -
  have h: "(1000::int) \<le> 2024" "(2024::int) \<le> 9999" "(1::int) \<le> 3" "(3::int) \<le> 12" "(1::int) \<le> 1"
    "1 \<le> days_in_month 2024 (3 - 1)" "- ms_per_day < tz_offset env_west" "tz_offset env_west < 0"
    by (simp_all add: date_eval)
  show ?thesis using displayDate_date_only_west [OF h] by (simp add: date_eval)
qed

theorem displayDate_date_only_witness:
  "(1000::int) \<le> 2024 \<and> (2024::int) \<le> 9999 \<and> (1::int) \<le> 3 \<and> (3::int) \<le> 12 \<and> (1::int) \<le> 15 \<and>
   15 \<le> days_in_month 2024 (3 - 1) \<and> 0 \<le> tz_offset env_za \<and> tz_offset env_za < ms_per_day \<and>
   displayDate env_za \<lparr>due_date = JStr (iso_date_text 2024 3 15), start_date = JNull\<rparr> = ''15 Mrt. 2024''"
proof -
  have h: "(1000::int) \<le> 2024" "(2024::int) \<le> 9999" "(1::int) \<le> 3" "(3::int) \<le> 12" "(1::int) \<le> 15"
    "15 \<le> days_in_month 2024 (3 - 1)" "0 \<le> tz_offset env_za" "tz_offset env_za < ms_per_day"
    by (simp_all add: date_eval)
  show ?thesis using h displayDate_date_only [OF h] by (simp add: date_eval)
qed

text \<open>C17: in a time zone at or east of UTC, \<open>displayDateShort\<close> of a stored date
  \<open>"YYYY-MM-DD"\<close> (four-digit year, valid month and day) is that day and month,
  "d MMM".\<close>

theorem displayDateShort_date_only:
  assumes y: "1000 \<le> y" "y \<le> 9999" and m: "1 \<le> m" "m \<le> 12"
    and d: "1 \<le> d" "d \<le> days_in_month y (m - 1)"
    and tz: "0 \<le> tz_offset env" "tz_offset env < ms_per_day"
  shows "displayDateShort env (JStr (iso_date_text y m d)) = nat_dec (nat d) @ '' '' @ af_month_short (m - 1)"
  using iso_date_fields [OF y m d tz] by (simp add: displayDateShort_def af_dm_def)

theorem displayDateShort_date_only_witness:
  "displayDateShort env_za (JStr (iso_date_text 2024 12 31)) = ''31 Des.''"
proof -
  have h: "(1000::int) \<le> 2024" "(2024::int) \<le> 9999" "(1::int) \<le> 12" "(12::int) \<le> 12" "(1::int) \<le> 31"
    "31 \<le> days_in_month 2024 (12 - 1)" "0 \<le> tz_offset env_za" "tz_offset env_za < ms_per_day"
    by (simp_all add: date_eval)
  show ?thesis using displayDateShort_date_only [OF h] by (simp add: date_eval)
qed

text \<open>C19: for a valid date whose local year has four digits, \<open>formatDate\<close> returns
  a text of exactly ten characters with the separators at positions 4 and 7:
  fixed-width \<open>YYYY-MM-DD\<close>, which \<open>displayPrettyDate\<close> compares with \<open>===\<close>.\<close>

theorem formatDate_width:
  assumes v: "truthy v" "new_date env v = Some t"
    and y: "1000 \<le> year_from_time (local_time env t)" "year_from_time (local_time env t) \<le> 9999"
  shows "\<exists>s. formatDate env v = JStr s \<and> length s = 10 \<and> s ! 4 = CHR ''-'' \<and> s ! 7 = CHR ''-''"
  using v en_ca_four_digit_year [OF y] by (simp add: formatDate_def nth_append)

theorem formatDate_width_witness:
  "\<exists>s. formatDate env_za (JStr ''2024-03-15'') = JStr s \<and> length s = 10 \<and> s ! 4 = CHR ''-'' \<and> s ! 7 = CHR ''-''"
proof -
  have h: "truthy (JStr ''2024-03-15'')" "new_date env_za (JStr ''2024-03-15'') = Some 1710460800000"
    "1000 \<le> year_from_time (local_time env_za 1710460800000)"
    "year_from_time (local_time env_za 1710460800000) \<le> 9999"
    by (simp_all add: date_eval)
  show ?thesis by (rule formatDate_width [OF h])
qed

end
