(* ===== verification/Pretty_Date.thy ===== *)
theory Pretty_Date
  imports Date_Format
begin

text \<open>
  \<open>displayPrettyDate(date)\<close> of \<open>src/src/lib/index.js\<close> (lines 73--123): the
  Afrikaans relative label of a date. The function reads the host clock seven
  times (\<open>new Date()\<close> on lines 82, 87, 96, 106 and 107, \<open>Date.now()\<close> on lines
  90 and 93); the model takes the readings as a function \<open>clk\<close> from the index
  of the reading, in program order, to the millisecond value, so that a run in
  which the clock advances between reads is a value of the model too.

  \<open>pretty_spec\<close> is the contract of the specification (section 4.4): the label
  as a function of today's local day and the date's local day. The refinement
  theorem shows that the code meets it when the clock is read at one instant,
  the time zone is at or east of UTC and the local time of day is not earlier
  than the zone's offset; the other theorems show what happens outside these
  conditions.
\<close>

definition o_circ :: string where
  "o_circ = [CHR 0xC3, CHR 0xB4]"

definition displayPrettyDate :: "date_env \<Rightarrow> (nat \<Rightarrow> int) \<Rightarrow> jsval \<Rightarrow> string" where
  "displayPrettyDate env clk date =
     (if \<not> truthy date then ''Geen datum''
      else
        (let date_obj = new_date env date;
             now = set_hours_midnight env (date_now_obj (clk 0))
         in if num_lt date_obj now then ''Verby''
         else
           (let date' = formatDate env date;
                today = formatDate env (JDate (date_now_obj (clk 1)))
            in if js_strict_eq date' today then ''Vandag''
            else
              (let tomorrow = formatDate env (JNum (Some (clk 2 + 86400000)))
               in if js_strict_eq date' tomorrow then ''M'' @ o_circ @ ''re''
               else
                 (let day_after_tomorrow = formatDate env (JNum (Some (clk 3 + 2 * 86400000)))
                  in if js_strict_eq date' day_after_tomorrow then ''Oorm'' @ o_circ @ ''re''
                  else
                    (let ws0 = date_now_obj (clk 4);
                         this_week_start = set_date env ws0 (num_sub (get_date env ws0) (get_day env ws0));
                         we0 = new_date env (JDate this_week_start);
                         this_week_end = set_date env we0 (num_add (get_date env we0) (Some 6));
                         inputDate = new_date env date'
                     in if num_le this_week_start inputDate \<and> num_le inputDate this_week_end
                        then ''Hierdie week''
                     else
                       (let currentMonth = get_month env (date_now_obj (clk 5));
                            currentYear = get_full_year env (date_now_obj (clk 6));
                            inputMonth = get_month env inputDate;
                            inputYear = get_full_year env inputDate
                        in if num_eq inputMonth currentMonth \<and> num_eq inputYear currentYear
                           then ''Hierdie maand''
                        else
                          (let nextMonth = num_rem (num_add currentMonth (Some 1)) (Some 12);
                               nextMonthYear = (if num_eq nextMonth (Some 0)
                                                then num_add currentYear (Some 1) else currentYear)
                           in if num_eq inputMonth nextMonth \<and> num_eq inputYear nextMonthYear
                              then ''Volgende maand'' else ''Later''))))))))"

section \<open>The contract\<close>

text \<open>The local year and month of a day number, and the month after a month.\<close>

definition day_year_month :: "int \<Rightarrow> int \<times> int" where
  "day_year_month D = (year_from_time (D * ms_per_day), month_from_time (D * ms_per_day))"

definition next_month_of :: "int \<times> int \<Rightarrow> int \<times> int" where
  "next_month_of ym = (if snd ym = 11 then (fst ym + 1, 0) else (fst ym, snd ym + 1))"

text \<open>The label for a date on local day \<open>D\<close> (\<open>None\<close>: no date) when today is
  local day \<open>N\<close>, in the order of precedence of the specification. The week
  starts on the Sunday of today's week and spans seven days.\<close>

definition pretty_spec :: "int \<Rightarrow> int option \<Rightarrow> string" where
  "pretty_spec N date =
     (case date of None \<Rightarrow> ''Geen datum''
      | Some D \<Rightarrow>
          if D < N then ''Verby''
          else if D = N then ''Vandag''
          else if D = N + 1 then ''M'' @ o_circ @ ''re''
          else if D = N + 2 then ''Oorm'' @ o_circ @ ''re''
          else if D \<le> N - week_day (N * ms_per_day) + 6 then ''Hierdie week''
          else if day_year_month D = day_year_month N then ''Hierdie maand''
          else if day_year_month D = next_month_of (day_year_month N) then ''Volgende maand''
          else ''Later'')"

section \<open>Lemmas for the refinement\<close>

text \<open>A single instant read at every call.\<close>

abbreviation at_instant :: "int \<Rightarrow> nat \<Rightarrow> int" where
  "at_instant n \<equiv> \<lambda>_. n"

lemma time_value_bounds:
  assumes tz: "0 \<le> tz_offset env" "tz_offset env < ms_per_day"
    and y: "1000 \<le> year_from_time (local_time env t)" "year_from_time (local_time env t) \<le> 9999"
  shows "-354286 * ms_per_day \<le> t" "t \<le> 2932897 * ms_per_day"
proof -
  have r: "-354285 \<le> local_day env t" "local_day env t < 2932897"
    using local_day_range [OF y] by simp_all
  have "local_day env t * ms_per_day \<le> local_time env t" "local_time env t < (local_day env t + 1) * ms_per_day"
    by (simp_all add: local_day_def day_def ms_per_day_def)
  with r tz show "-354286 * ms_per_day \<le> t" "t \<le> 2932897 * ms_per_day"
    by (simp_all add: local_time_def ms_per_day_def)
qed

lemma clip_shift:
  assumes "-354286 * ms_per_day \<le> t" "t \<le> 2932897 * ms_per_day" "-7 \<le> k" "k \<le> 7"
  shows "time_clip (Some (t + k * ms_per_day)) = Some (t + k * ms_per_day)"
  using assms by (simp add: time_clip_def ms_per_day_def)

lemma local_day_shift: "local_day env (t + k * ms_per_day) = local_day env t + k"
  by (simp add: local_day_def local_time_def day_def ms_per_day_def)

lemma local_year_mono:
  "t \<le> u \<Longrightarrow> year_from_time (local_time env t) \<le> year_from_time (local_time env u)"
  by (simp add: year_from_time_def day_def local_time_def ms_per_day_def year_from_day_mono
      zdiv_mono1)

lemma fields_of_local_day:
  "year_from_time (local_time env t) = fst (day_year_month (local_day env t))"
  "month_from_time (local_time env t) = snd (day_year_month (local_day env t))"
proof -
  have "day (local_day env t * ms_per_day) = day (local_time env t)"
    by (simp add: local_day_def day_def ms_per_day_def)
  then show "year_from_time (local_time env t) = fst (day_year_month (local_day env t))"
    "month_from_time (local_time env t) = snd (day_year_month (local_day env t))"
    using fields_of_same_day [of "local_day env t * ms_per_day" "local_time env t"]
    by (simp_all add: day_year_month_def)
qed

text \<open>The hypotheses under which the refinement holds: a zone at or east of UTC,
  and both today and the date in four-digit years.\<close>

definition east_zone :: "date_env \<Rightarrow> bool" where
  "east_zone env \<longleftrightarrow> 0 \<le> tz_offset env \<and> tz_offset env < ms_per_day"

definition four_digit_year :: "date_env \<Rightarrow> int \<Rightarrow> bool" where
  "four_digit_year env t \<longleftrightarrow>
     1000 \<le> year_from_time (local_time env t) \<and> year_from_time (local_time env t) \<le> 9999"

lemma east_four_digit_bounds:
  "east_zone env \<Longrightarrow> four_digit_year env t \<Longrightarrow>
     -354286 * ms_per_day \<le> t \<and> t \<le> 2932897 * ms_per_day"
  using time_value_bounds [of env t] by (simp add: east_zone_def four_digit_year_def)

lemma clip_near:
  "east_zone env \<Longrightarrow> four_digit_year env t \<Longrightarrow> -7 \<le> k \<Longrightarrow> k \<le> 7 \<Longrightarrow>
     time_clip (Some (t + k * ms_per_day)) = Some (t + k * ms_per_day)"
  using east_four_digit_bounds clip_shift by blast

lemma clip_now:
  "east_zone env \<Longrightarrow> four_digit_year env n \<Longrightarrow> time_clip (Some n) = Some n"
  "east_zone env \<Longrightarrow> four_digit_year env n \<Longrightarrow> date_now_obj n = Some n"
  using clip_near [of env n 0] by (simp_all add: date_now_obj_def)

lemma prettydate_past:
  assumes "east_zone env" "four_digit_year env n"
  shows "num_lt (Some t) (set_hours_midnight env (date_now_obj n)) \<longleftrightarrow> local_day env t < local_day env n"
proof -
  have b: "-354286 * ms_per_day \<le> n" "n \<le> 2932897 * ms_per_day"
    using east_four_digit_bounds [OF assms] by simp_all
  have "local_day env n * ms_per_day \<le> local_time env n" "local_time env n < (local_day env n + 1) * ms_per_day"
    by (simp_all add: local_day_def day_def ms_per_day_def)
  then have "\<bar>day (local_time env n) * ms_per_day - tz_offset env\<bar> \<le> 8640000000000000"
    using b assms(1) by (simp add: local_day_def local_time_def east_zone_def ms_per_day_def)
  then show ?thesis
    using clip_now [OF assms] before_midnight_iff [of t env n]
    by (simp add: make_date_def make_time_def utc_def local_day_def)
qed

lemma prettydate_format_now:
  assumes "east_zone env" "four_digit_year env n"
  shows "formatDate env (JDate (date_now_obj n)) = JStr (en_ca env (Some n))"
  using clip_now [OF assms] by (simp add: formatDate_def new_date_def)

lemma prettydate_format_later:
  assumes "east_zone env" "four_digit_year env n" "-7 \<le> k" "k \<le> 7" "n + k * ms_per_day \<noteq> 0"
  shows "formatDate env (JNum (Some (n + k * ms_per_day))) = JStr (en_ca env (Some (n + k * ms_per_day)))"
  using assms clip_near [OF assms(1,2,3,4)] by (simp add: formatDate_def new_date_def)

lemma week_day_of_local_day: "week_day (local_time env n) = week_day (local_day env n * ms_per_day)"
  by (simp add: week_day_def local_day_def day_def ms_per_day_def)

text \<open>The week window of lines 96--99: from today minus its week day to six days
  later, both at the current local time of day.\<close>

lemma prettydate_week_window:
  assumes "east_zone env" "four_digit_year env n"
  defines "wd \<equiv> week_day (local_time env n)"
  shows "set_date env (date_now_obj n) (num_sub (get_date env (date_now_obj n)) (get_day env (date_now_obj n)))
           = Some (n - wd * ms_per_day)"
    "set_date env (new_date env (JDate (Some (n - wd * ms_per_day))))
        (num_add (get_date env (new_date env (JDate (Some (n - wd * ms_per_day))))) (Some 6))
           = Some (n + (6 - wd) * ms_per_day)"
proof -
  have wd: "0 \<le> wd" "wd \<le> 6" by (simp_all add: wd_def week_day_def)
  have s: "set_date env (Some n) (Some (date_from_time (local_time env n) + - wd)) = Some (n + - wd * ms_per_day)"
    using set_date_shift [of env n "- wd"] clip_near [OF assms(1,2), of "- wd"] wd by simp
  then show "set_date env (date_now_obj n) (num_sub (get_date env (date_now_obj n)) (get_day env (date_now_obj n)))
           = Some (n - wd * ms_per_day)"
    using clip_now [OF assms(1,2)] by (simp add: wd_def)
  have c: "new_date env (JDate (Some (n - wd * ms_per_day))) = Some (n - wd * ms_per_day)"
    using clip_near [OF assms(1,2), of "- wd"] wd by (simp add: new_date_def)
  have "set_date env (Some (n - wd * ms_per_day))
          (Some (date_from_time (local_time env (n - wd * ms_per_day)) + 6))
        = Some (n - wd * ms_per_day + 6 * ms_per_day)"
    using set_date_shift [of env "n - wd * ms_per_day" 6] clip_near [OF assms(1,2), of "6 - wd"] wd
    by (simp add: algebra_simps)
  then show "set_date env (new_date env (JDate (Some (n - wd * ms_per_day))))
        (num_add (get_date env (new_date env (JDate (Some (n - wd * ms_per_day))))) (Some 6))
           = Some (n + (6 - wd) * ms_per_day)"
    using c by (simp add: algebra_simps)
qed

lemma prettydate_week_iff:
  assumes env: "east_zone env" and tod: "tz_offset env \<le> time_within_day (local_time env n)"
    and late: "local_day env n + 3 \<le> D"
  defines "wd \<equiv> week_day (local_time env n)"
  shows "num_le (Some (n - wd * ms_per_day)) (Some (D * ms_per_day)) \<and>
         num_le (Some (D * ms_per_day)) (Some (n + (6 - wd) * ms_per_day))
     \<longleftrightarrow> D \<le> local_day env n - week_day (local_day env n * ms_per_day) + 6"
proof -
  let ?N = "local_day env n" and ?tau = "time_within_day (local_time env n)"
  have wd: "0 \<le> wd" "wd \<le> 6" "wd = week_day (?N * ms_per_day)"
    by (simp_all only: wd_def week_day_of_local_day) (simp_all add: week_day_def)
  have n: "n = ?N * ms_per_day + (?tau - tz_offset env)"
    unfolding local_day_def day_def time_within_day_def local_time_def
    using div_mult_mod_eq [of "n + tz_offset env" ms_per_day] by linarith
  have "?tau < ms_per_day" by (simp add: time_within_day_def ms_per_day_def)
  then have r: "0 \<le> ?tau - tz_offset env" "?tau - tz_offset env < ms_per_day"
    using tod env unfolding east_zone_def by linarith+
  show ?thesis
    using wd late r by (subst n, subst n) (simp add: ms_per_day_def algebra_simps, linarith)
qed

lemma prettydate_input_fields:
  assumes "east_zone env"
  shows "get_month env (Some (D * ms_per_day)) = Some (snd (day_year_month D))"
    "get_full_year env (Some (D * ms_per_day)) = Some (fst (day_year_month D))"
  using local_day_utc_midnight [of env D] fields_of_local_day [of env "D * ms_per_day"] assms
  by (simp_all add: east_zone_def)

lemma next_month_rem:
  assumes "0 \<le> m" "m \<le> 11"
  shows "num_rem (num_add (Some m) (Some 1)) (Some 12) = Some ((m + 1) mod 12)"
    "(m + 1) mod 12 = 0 \<longleftrightarrow> m = 11"
    "m \<noteq> 11 \<Longrightarrow> (m + 1) mod 12 = m + 1"
proof -
  show "num_rem (num_add (Some m) (Some 1)) (Some 12) = Some ((m + 1) mod 12)"
    using assms by simp
  show "m \<noteq> 11 \<Longrightarrow> (m + 1) mod 12 = m + 1"
    using assms by (simp add: mod_pos_pos_trivial)
  then show "(m + 1) mod 12 = 0 \<longleftrightarrow> m = 11"
    using assms by (cases "m = 11") simp_all
qed

section \<open>The refinement\<close>

lemma prettydate_day_texts:
  assumes env: "east_zone env" and yn: "four_digit_year env n"
    and v: "truthy v" "new_date env v = Some t" and yt: "four_digit_year env t"
    and nz: "n + ms_per_day \<noteq> 0" "n + 2 * ms_per_day \<noteq> 0"
  shows "js_strict_eq (formatDate env v) (formatDate env (JDate (date_now_obj n))) \<longleftrightarrow>
      local_day env t = local_day env n"
    and "js_strict_eq (formatDate env v) (formatDate env (JNum (Some (n + 86400000)))) \<longleftrightarrow>
      local_day env t = local_day env n + 1"
    and "js_strict_eq (formatDate env v) (formatDate env (JNum (Some (n + 2 * 86400000)))) \<longleftrightarrow>
      local_day env t = local_day env n + 2"
proof -
  have ypos: "0 < year_from_time (local_time env t)" "0 < year_from_time (local_time env n)"
    "0 < year_from_time (local_time env (n + 1 * ms_per_day))"
    "0 < year_from_time (local_time env (n + 2 * ms_per_day))"
    using yt yn local_year_mono [of n "n + 1 * ms_per_day" env] local_year_mono [of n "n + 2 * ms_per_day" env]
    by (auto simp add: four_digit_year_def ms_per_day_def)
  have fv: "formatDate env v = JStr (en_ca env (Some t))"
    using v by (simp add: formatDate_def)
  have f1: "formatDate env (JNum (Some (n + 86400000))) = JStr (en_ca env (Some (n + 1 * ms_per_day)))"
    using prettydate_format_later [OF env yn, of 1] nz by (simp add: ms_per_day_def)
  have f2: "formatDate env (JNum (Some (n + 2 * 86400000))) = JStr (en_ca env (Some (n + 2 * ms_per_day)))"
    using prettydate_format_later [OF env yn, of 2] nz by (simp add: ms_per_day_def)
  show "js_strict_eq (formatDate env v) (formatDate env (JDate (date_now_obj n))) \<longleftrightarrow>
      local_day env t = local_day env n"
    using fv prettydate_format_now [OF env yn] en_ca_Some_eq ypos by simp
  show "js_strict_eq (formatDate env v) (formatDate env (JNum (Some (n + 86400000)))) \<longleftrightarrow>
      local_day env t = local_day env n + 1"
    using fv f1 en_ca_Some_eq [OF ypos(1) ypos(3)] local_day_shift [of env n 1] by simp
  show "js_strict_eq (formatDate env v) (formatDate env (JNum (Some (n + 2 * 86400000)))) \<longleftrightarrow>
      local_day env t = local_day env n + 2"
    using fv f2 en_ca_Some_eq [OF ypos(1) ypos(4)] local_day_shift [of env n 2] by simp
qed

text \<open>C1: when the clock is read at one instant \<open>n\<close>, the zone is at or east of
  UTC, the local time of day is not before the zone's offset, and today and the
  date lie in four-digit years, \<open>displayPrettyDate\<close> returns the label of the
  specification for the date's local day (timestamps \<open>n + 1\<close> and \<open>n + 2\<close> days
  must not be the falsy \<open>0\<close>).\<close>

theorem displayPrettyDate_refines_spec:
  assumes env: "east_zone env" and tod: "tz_offset env \<le> time_within_day (local_time env n)"
    and yn: "four_digit_year env n"
    and v: "truthy v" "new_date env v = Some t" and yt: "four_digit_year env t"
    and nz: "n + ms_per_day \<noteq> 0" "n + 2 * ms_per_day \<noteq> 0"
  shows "displayPrettyDate env (at_instant n) v = pretty_spec (local_day env n) (Some (local_day env t))"
proof -
  let ?N = "local_day env n" and ?D = "local_day env t"
  have past: "num_lt (new_date env v) (set_hours_midnight env (date_now_obj n)) \<longleftrightarrow> ?D < ?N"
    using prettydate_past [OF env yn] v by simp
  note days = prettydate_day_texts [OF env yn v yt nz]
  note win = prettydate_week_window [OF env yn]
  have inp: "new_date env (formatDate env v) = Some (?D * ms_per_day)"
    using parse_en_ca [of env t] v yt by (simp add: four_digit_year_def formatDate_def)
  note week = prettydate_week_iff [OF env tod]
  note inf = prettydate_input_fields [OF env, of ?D]
  have cur: "get_month env (date_now_obj n) = Some (snd (day_year_month ?N))"
    "get_full_year env (date_now_obj n) = Some (fst (day_year_month ?N))"
    using clip_now(2) [OF env yn] fields_of_local_day [of env n] by simp_all
  have mr: "0 \<le> snd (day_year_month ?N)" "snd (day_year_month ?N) \<le> 11"
    using month_from_time_range [of "?N * ms_per_day"] by (simp_all add: day_year_month_def)
  note nm = next_month_rem [OF mr]
  show ?thesis
    unfolding displayPrettyDate_def pretty_spec_def
    using v past days win inp week inf cur nm mr
    by (simp add: Let_def next_month_of_def prod_eq_iff)
qed

lemma en_ca_not_invalid: "en_ca env (Some t) \<noteq> ''Invalid Date''"
proof
  assume "en_ca env (Some t) = ''Invalid Date''"
  moreover have "CHR ''-'' \<in> set (en_ca env (Some t))" by (simp add: en_ca_def)
  ultimately show False by simp
qed

lemma en_ca_None [simp]: "en_ca env None = ''Invalid Date''"
  by (simp add: en_ca_def)

lemma new_date_invalid_text: "new_date env (JStr ''Invalid Date'') = time_clip (legacy_parse env ''Invalid Date'')"
  by (simp add: date_eval)

text \<open>C18: a date that does not parse (\<open>new Date(v)\<close> is invalid), on a host whose
  fallback parser rejects the text "Invalid Date", is labelled "Later": it is not
  in the past (comparisons with NaN are false), its \<open>formatDate\<close> text
  "Invalid Date" matches none of today, tomorrow and the day after, and its month
  and year (NaN) match neither this month nor the next. The clock reading must
  lie two days inside the range of time values.\<close>

theorem displayPrettyDate_invalid_later:
  assumes v: "truthy v" "new_date env v = None" and lp: "legacy_parse env ''Invalid Date'' = None"
    and n: "\<bar>n\<bar> + 2 * ms_per_day \<le> 8640000000000000"
  shows "displayPrettyDate env (at_instant n) v = ''Later''"
proof -
  have clip: "date_now_obj n = Some n" "new_date env (JNum (Some (n + 86400000))) = Some (n + 86400000)"
    "new_date env (JNum (Some (n + 2 * 86400000))) = Some (n + 2 * 86400000)"
    using n by (simp_all add: date_now_obj_def new_date_def time_clip_def ms_per_day_def)
  have inv: "new_date env (JStr ''Invalid Date'') = None"
    using lp by (simp add: new_date_invalid_text time_clip_def)
  have fv: "formatDate env v = JStr ''Invalid Date''"
    using v by (simp add: formatDate_def)
  have neq: "\<not> js_strict_eq (JStr ''Invalid Date'') (formatDate env (JDate (date_now_obj n)))"
    "\<not> js_strict_eq (JStr ''Invalid Date'') (formatDate env (JNum (Some (n + 86400000))))"
    "\<not> js_strict_eq (JStr ''Invalid Date'') (formatDate env (JNum (Some (n + 2 * 86400000))))"
  proof -
    have nd: "new_date env (JDate (Some n)) = Some n"
      using clip(1) by (simp add: new_date_def date_now_obj_def)
    have ne: "''Invalid Date'' \<noteq> en_ca env (Some t)" for t
      using en_ca_not_invalid [of env t] by simp
    show "\<not> js_strict_eq (JStr ''Invalid Date'') (formatDate env (JDate (date_now_obj n)))"
      using clip(1) nd ne by (simp add: formatDate_def)
    show "\<not> js_strict_eq (JStr ''Invalid Date'') (formatDate env (JNum (Some (n + 86400000))))"
      using clip(2) ne by (simp add: formatDate_def)
    show "\<not> js_strict_eq (JStr ''Invalid Date'') (formatDate env (JNum (Some (n + 2 * 86400000))))"
      using clip(3) ne by (simp add: formatDate_def)
  qed
  have lt: "\<not> num_lt (new_date env v) x" for x using v by simp
  show ?thesis
    unfolding displayPrettyDate_def Let_def fv
    using v lt neq inv by simp
qed

text \<open>The week window keeps the current local time of day (lines 96--99). When
  that time is before the zone's offset past midnight, the window ends before
  midnight UTC of its Saturday, which is the instant the re-parsed Saturday date
  denotes (line 101).\<close>

lemma prettydate_week_early:
  assumes env: "east_zone env" and early: "time_within_day (local_time env n) < tz_offset env"
  defines "wd \<equiv> week_day (local_time env n)"
  shows "\<not> num_le (Some ((local_day env n - wd + 6) * ms_per_day)) (Some (n + (6 - wd) * ms_per_day))"
proof -
  let ?N = "local_day env n" and ?tau = "time_within_day (local_time env n)"
  have n: "n = ?N * ms_per_day + (?tau - tz_offset env)"
    unfolding local_day_def day_def time_within_day_def local_time_def
    using div_mult_mod_eq [of "n + tz_offset env" ms_per_day] by linarith
  show ?thesis
    using early by (subst n) (simp add: algebra_simps)
qed

text \<open>C2: east of UTC, between local midnight and the zone's offset (00:00 to
  02:00 in South Africa), a date on the Saturday of the current week is not
  labelled "this week", although the specification labels it so: the week
  window of lines 96--99 keeps the current time of day while the re-parsed date
  is midnight UTC. This holds for every such instant and every date on that
  Saturday (at least three days ahead, so that "today", "tomorrow" and "the day
  after" do not apply).\<close>

theorem displayPrettyDate_week_edge:
  assumes env: "east_zone env" and early: "time_within_day (local_time env n) < tz_offset env"
    and yn: "four_digit_year env n"
    and v: "truthy v" "new_date env v = Some t" and yt: "four_digit_year env t"
    and nz: "n + ms_per_day \<noteq> 0" "n + 2 * ms_per_day \<noteq> 0"
    and sat: "local_day env t = local_day env n - week_day (local_time env n) + 6"
    and wd: "week_day (local_time env n) \<le> 3"
  shows "pretty_spec (local_day env n) (Some (local_day env t)) = ''Hierdie week'' \<and>
    displayPrettyDate env (at_instant n) v \<noteq> ''Hierdie week''"
proof
  let ?N = "local_day env n" and ?D = "local_day env t"
  show "pretty_spec ?N (Some ?D) = ''Hierdie week''"
    using sat wd by (simp add: pretty_spec_def week_day_of_local_day [symmetric] o_circ_def)
  have past: "\<not> num_lt (new_date env v) (set_hours_midnight env (date_now_obj n))"
    using prettydate_past [OF env yn] v sat wd by simp
  note days = prettydate_day_texts [OF env yn v yt nz]
  note win = prettydate_week_window [OF env yn]
  have inp: "new_date env (formatDate env v) = Some (?D * ms_per_day)"
    using parse_en_ca [of env t] v yt by (simp add: four_digit_year_def formatDate_def)
  note late = prettydate_week_early [OF env early]
  show "displayPrettyDate env (at_instant n) v \<noteq> ''Hierdie week''"
    unfolding displayPrettyDate_def
    using v past days win inp late sat wd by (simp add: Let_def)
qed

text \<open>C3: west of UTC (offset strictly between minus one day and zero), a due
  date stored as \<open>"YYYY-MM-DD"\<close> is parsed as midnight UTC, which is the
  previous local day. So on the local day before the stored date, with the clock
  read at one instant, \<open>displayPrettyDate\<close> labels the date "today", where the
  specification's label for that calendar date is "tomorrow".\<close>

theorem displayPrettyDate_west_shift:
  assumes y: "1000 \<le> y" "y \<le> 9999" and m: "1 \<le> m" "m \<le> 12"
    and d: "1 \<le> d" "d \<le> days_in_month y (m - 1)"
    and tz: "- ms_per_day < tz_offset env" "tz_offset env < 0"
    and n: "\<bar>n\<bar> + 2 * ms_per_day \<le> 8640000000000000" and yn: "four_digit_year env n"
    and today: "local_day env n = make_day y (m - 1) d - 1"
  shows "pretty_spec (local_day env n) (Some (make_day y (m - 1) d)) = ''M'' @ o_circ @ ''re'' \<and>
    displayPrettyDate env (at_instant n) (JStr (iso_date_text y m d)) = ''Vandag''"
proof
  let ?D = "make_day y (m - 1) d" let ?T = "?D * ms_per_day"
  show "pretty_spec (local_day env n) (Some ?D) = ''M'' @ o_circ @ ''re''"
    using today by (simp add: pretty_spec_def)
  have nd: "new_date env (JStr (iso_date_text y m d)) = Some ?T"
    by (rule new_date_date_only [OF y m d])
  have lt: "local_day env ?T = local_day env n"
    using local_day_utc_midnight_west [OF tz] today by simp
  have clip: "date_now_obj n = Some n" "new_date env (JDate (Some n)) = Some n"
    using n by (simp_all add: date_now_obj_def new_date_def ms_per_day_def)
  have mid: "\<bar>day (local_time env n) * ms_per_day - tz_offset env\<bar> \<le> 8640000000000000"
    using n tz unfolding local_time_def day_def ms_per_day_def by linarith
  have past: "\<not> num_lt (Some ?T) (set_hours_midnight env (Some n))"
    using lt mid unfolding set_hours_midnight_value by (simp add: before_midnight_iff local_day_def)
  have "year_from_time (local_time env ?T) = year_from_time (local_time env n)"
    using fields_of_same_day [of "local_time env ?T" "local_time env n"] lt by (simp add: local_day_def)
  then have "en_ca env (Some ?T) = en_ca env (Some n)"
    using en_ca_Some_eq lt yn by (simp add: four_digit_year_def)
  then show "displayPrettyDate env (at_instant n) (JStr (iso_date_text y m d)) = ''Vandag''"
    unfolding displayPrettyDate_def using nd clip past by (simp add: formatDate_def)
qed

section \<open>Instances\<close>

text \<open>Wednesday 13 March 2024, 10:00 in South Africa (08:00 UTC).\<close>

definition wed_10am :: int where
  "wed_10am = 1710316800000"

text \<open>Wednesday 13 March 2024, 01:00 in South Africa (23:00 UTC on the 12th).\<close>

definition wed_1am :: int where
  "wed_1am = 1710284400000"

lemma pretty_instants [simp]: "wed_10am = 1710316800000" "wed_1am = 1710284400000"
  by (simp_all add: wed_10am_def wed_1am_def)

lemmas pretty_eval = date_eval displayPrettyDate_def formatDate_def pretty_spec_def day_year_month_def
  next_month_of_def o_circ_def

theorem displayPrettyDate_refines_spec_witness:
  "east_zone env_za \<and> tz_offset env_za \<le> time_within_day (local_time env_za wed_10am) \<and>
   four_digit_year env_za wed_10am \<and> truthy (JStr ''2024-03-16'') \<and>
   new_date env_za (JStr ''2024-03-16'') = Some 1710547200000 \<and> four_digit_year env_za 1710547200000 \<and>
   wed_10am + ms_per_day \<noteq> 0 \<and> wed_10am + 2 * ms_per_day \<noteq> 0 \<and>
   displayPrettyDate env_za (at_instant wed_10am) (JStr ''2024-03-16'') = ''Hierdie week''"
proof -
  have h: "east_zone env_za" "tz_offset env_za \<le> time_within_day (local_time env_za wed_10am)"
    "four_digit_year env_za wed_10am" "truthy (JStr ''2024-03-16'')"
    "new_date env_za (JStr ''2024-03-16'') = Some 1710547200000" "four_digit_year env_za 1710547200000"
    "wed_10am + ms_per_day \<noteq> 0" "wed_10am + 2 * ms_per_day \<noteq> 0"
    by (simp_all add: pretty_eval east_zone_def four_digit_year_def)
  have "pretty_spec (local_day env_za wed_10am) (Some (local_day env_za 1710547200000)) = ''Hierdie week''"
    by (simp add: pretty_eval local_day_def)
  then show ?thesis using h displayPrettyDate_refines_spec [OF h] by simp
qed

theorem displayPrettyDate_week_edge_witness:
  "pretty_spec (local_day env_za wed_1am) (Some (local_day env_za 1710547200000)) = ''Hierdie week'' \<and>
   displayPrettyDate env_za (at_instant wed_1am) (JStr ''2024-03-16'') \<noteq> ''Hierdie week''"
proof -
  have h: "east_zone env_za" "time_within_day (local_time env_za wed_1am) < tz_offset env_za"
    "four_digit_year env_za wed_1am"
    "truthy (JStr ''2024-03-16'')" "new_date env_za (JStr ''2024-03-16'') = Some 1710547200000"
    "four_digit_year env_za 1710547200000"
    "wed_1am + ms_per_day \<noteq> 0" "wed_1am + 2 * ms_per_day \<noteq> 0"
    "local_day env_za 1710547200000 = local_day env_za wed_1am - week_day (local_time env_za wed_1am) + 6"
    "week_day (local_time env_za wed_1am) \<le> 3"
    by (simp_all add: date_eval east_zone_def four_digit_year_def local_day_def)
  show ?thesis by (rule displayPrettyDate_week_edge [OF h])
qed

text \<open>Sunday 10 March 2024, 12:00 at UTC-05:00 (17:00 UTC).\<close>

definition sun_noon_west :: int where
  "sun_noon_west = 1710090000000"

lemma sun_noon_west_val [simp]: "sun_noon_west = 1710090000000"
  by (simp add: sun_noon_west_def)

theorem displayPrettyDate_west_shift_witness:
  "pretty_spec (local_day env_west sun_noon_west) (Some (make_day 2024 (3 - 1) 11)) = ''M'' @ o_circ @ ''re'' \<and>
   displayPrettyDate env_west (at_instant sun_noon_west) (JStr (iso_date_text 2024 3 11)) = ''Vandag''"
proof -
  have h: "(1000::int) \<le> 2024" "(2024::int) \<le> 9999" "(1::int) \<le> 3" "(3::int) \<le> 12" "(1::int) \<le> 11"
    "11 \<le> days_in_month 2024 (3 - 1)" "- ms_per_day < tz_offset env_west" "tz_offset env_west < 0"
    "\<bar>sun_noon_west\<bar> + 2 * ms_per_day \<le> 8640000000000000" "four_digit_year env_west sun_noon_west"
    "local_day env_west sun_noon_west = make_day 2024 (3 - 1) 11 - 1"
    by (simp_all add: date_eval four_digit_year_def local_day_def)
  show ?thesis by (rule displayPrettyDate_west_shift [OF h])
qed

theorem displayPrettyDate_invalid_later_witness:
  "displayPrettyDate env_za (at_instant wed_10am) (JStr ''2024-02-30'') = ''Later''"
  using displayPrettyDate_invalid_later [of "JStr ''2024-02-30''" env_za wed_10am]
  by (simp add: date_eval ms_per_day_def)

end
