(* ===== verification/Sort_By_Field.thy ===== *)
theory Sort_By_Field
  imports JS_Date "HOL-Library.Sorting_Algorithms" "HOL-Library.List_Lexorder" "HOL-Library.Char_ord"
begin

text \<open>
  \<open>sortByField(array, field_name, order = "asc")\<close> of \<open>src/src/lib/index.js\<close>
  (lines 147--160) and the part of the platform it runs on.

  \<^item> Objects are association lists from property names to values
    (\<open>jsobj\<close>); a missing property reads as \<open>undefined\<close> (\<open>get_field\<close>).
  \<^item> Arrays live in a store (\<open>store\<close>: references to lists of objects), since
    the function sorts its argument in place and returns that same array.
  \<^item> \<open>Array.prototype.sort(comparefn)\<close> (ECMA-262 23.1.3.30) is \<open>array_sort\<close>:
    \<open>SortCompare\<close> reads a \<open>NaN\<close> result of the comparator as \<open>+0\<close>
    (\<open>sort_compare\<close>), and the order is the stable insertion order
    (\<open>js_insort\<close>). The standard fixes the result only for a consistent
    comparator, and then fixes it uniquely (the sort is stable): this is the
    content of \<open>array_sort_by_key\<close>. For an inconsistent comparator the
    order is implementation-defined and \<open>array_sort\<close> is one admissible choice;
    no property below depends on that choice beyond the result being a
    permutation of the input.
  \<^item> \<open>String.prototype.localeCompare\<close> is the host's collation, a parameter
    \<open>coll\<close> of the model; \<open>key_collation ck\<close> is a collation given by sort keys
    (the way ICU compares strings).
\<close>

section \<open>Objects and the array store\<close>

type_synonym jsobj = "(string \<times> jsval) list"

definition get_field :: "jsobj \<Rightarrow> string \<Rightarrow> jsval" where
  "get_field ob f = (case map_of ob f of None \<Rightarrow> JUndefined | Some v \<Rightarrow> v)"

type_synonym aref = nat
type_synonym store = "aref \<Rightarrow> jsobj list option"

datatype js_error = TypeError

section \<open>\<open>Array.prototype.sort\<close>\<close>

definition sort_compare :: "('a \<Rightarrow> 'a \<Rightarrow> jsnum) \<Rightarrow> 'a \<Rightarrow> 'a \<Rightarrow> int" where
  "sort_compare cmp x y = (case cmp x y of None \<Rightarrow> 0 | Some v \<Rightarrow> v)"

primrec js_insort :: "('a \<Rightarrow> 'a \<Rightarrow> int) \<Rightarrow> 'a \<Rightarrow> 'a list \<Rightarrow> 'a list" where
  "js_insort c y [] = [y]"
| "js_insort c y (x # xs) = (if c y x \<le> 0 then y # x # xs else x # js_insort c y xs)"

definition array_sort :: "('a \<Rightarrow> 'a \<Rightarrow> jsnum) \<Rightarrow> 'a list \<Rightarrow> 'a list" where
  "array_sort cmp xs = foldr (js_insort (sort_compare cmp)) xs []"

section \<open>\<open>sortByField\<close>\<close>

fun typeof_number :: "jsval \<Rightarrow> bool" where
  "typeof_number (JNum _) = True"
| "typeof_number _ = False"

fun num_val :: "jsval \<Rightarrow> jsnum" where
  "num_val (JNum n) = n"
| "num_val _ = None"

text \<open>\<open>v ?? d\<close>\<close>

definition nullish :: "jsval \<Rightarrow> jsval \<Rightarrow> jsval" where
  "nullish v d = (case v of JUndefined \<Rightarrow> d | JNull \<Rightarrow> d | _ \<Rightarrow> v)"

definition field_string :: "date_env \<Rightarrow> jsval \<Rightarrow> string" where
  "field_string env v = js_to_string env (nullish v (JStr ''''))"

text \<open>The comparator of lines 150--159.\<close>

definition field_compare ::
  "date_env \<Rightarrow> (string \<Rightarrow> string \<Rightarrow> int) \<Rightarrow> string \<Rightarrow> bool \<Rightarrow> jsobj \<Rightarrow> jsobj \<Rightarrow> jsnum" where
  "field_compare env coll field_name is_asc a b =
     (let va = get_field a field_name; vb = get_field b field_name in
      if typeof_number va \<and> typeof_number vb then
        (if is_asc then num_sub (num_val va) (num_val vb) else num_sub (num_val vb) (num_val va))
      else
        (let a_str = field_string env va; b_str = field_string env vb in
         Some (if is_asc then coll a_str b_str else coll b_str a_str)))"

text \<open>The default parameter and \<open>order === "asc"\<close> (lines 147--148).\<close>

definition order_is_asc :: "jsval \<Rightarrow> bool" where
  "order_is_asc order = js_strict_eq (if order = JUndefined then JStr ''asc'' else order) (JStr ''asc'')"

definition sortByField ::
  "date_env \<Rightarrow> (string \<Rightarrow> string \<Rightarrow> int) \<Rightarrow> store \<Rightarrow> aref \<Rightarrow> string \<Rightarrow> jsval \<Rightarrow> js_error + store \<times> aref" where
  "sortByField env coll h array field_name order =
     (case h array of
        None \<Rightarrow> Inl TypeError
      | Some xs \<Rightarrow>
          Inr (h(array \<mapsto> array_sort (field_compare env coll field_name (order_is_asc order)) xs), array))"

section \<open>Orders by a key\<close>

text \<open>A collation given by sort keys, and the stable order by a key, ascending or
  descending: what the function promises for a consistent comparator.\<close>

definition key_collation :: "(string \<Rightarrow> 'k::linorder) \<Rightarrow> string \<Rightarrow> string \<Rightarrow> int" where
  "key_collation ck s t = (if ck s < ck t then -1 else if ck t < ck s then 1 else 0)"

definition stable_sort_by :: "bool \<Rightarrow> ('a \<Rightarrow> 'k::linorder) \<Rightarrow> 'a list \<Rightarrow> 'a list" where
  "stable_sort_by asc k xs = (if asc then sort_key k xs else rev (sort_key k (rev xs)))"

definition field_int :: "string \<Rightarrow> jsobj \<Rightarrow> int" where
  "field_int f ob = (case get_field ob f of JNum (Some i) \<Rightarrow> i | _ \<Rightarrow> 0)"

section \<open>Instances\<close>

text \<open>A collation by code points. On the strings of the instances below (ASCII
  letters of one case, ASCII digits) it orders as the root collation of ICU
  does.\<close>

definition codepoint_collation :: "string \<Rightarrow> string \<Rightarrow> int" where
  "codepoint_collation = key_collation (\<lambda>s. map of_char s :: nat list)"

definition v_obj :: "jsval \<Rightarrow> jsobj" where
  "v_obj x = [(''v'', x)]"

text \<open>The data of the example in the documentation comment (lines 135--139).\<close>

definition person :: "string \<Rightarrow> int \<Rightarrow> jsobj" where
  "person n a = [(''name'', JStr n), (''age'', JNum (Some a))]"

definition jsdoc_data :: "jsobj list" where
  "jsdoc_data = [person ''John'' 25, person ''Jane'' 22, person ''Bob'' 30]"

section \<open>Array sort refines the stable sort\<close>

lemma mset_js_insort [simp]: "mset (js_insort c y xs) = add_mset y (mset xs)"
  by (induction xs) auto

lemma mset_array_sort [simp]: "mset (array_sort cmp xs) = mset xs"
  by (induction xs) (simp_all add: array_sort_def)

lemma set_array_sort [simp]: "set (array_sort cmp xs) = set xs"
  by (metis mset_array_sort set_mset_mset)

lemma array_sort_Cons:
  "array_sort cmp (x # xs) = js_insort (sort_compare cmp) x (array_sort cmp xs)"
  by (simp add: array_sort_def)

lemma js_insort_eq_insort:
  assumes "\<And>x. x \<in> set xs \<Longrightarrow> (c y x \<le> 0) = (compare C y x \<noteq> Greater)"
  shows "js_insort c y xs = Sorting_Algorithms.insort C y xs"
  using assms by (induction xs) auto

lemma array_sort_eq_sort:
  assumes "\<And>x y. x \<in> set xs \<Longrightarrow> y \<in> set xs \<Longrightarrow> (sort_compare cmp x y \<le> 0) = (compare C x y \<noteq> Greater)"
  shows "array_sort cmp xs = Sorting_Algorithms.sort C xs"
  using assms
proof (induction xs)
  case Nil
  then show ?case by (simp add: array_sort_def)
next
  case (Cons x xs)
  then have "array_sort cmp xs = Sorting_Algorithms.sort C xs" by auto
  moreover have "js_insort (sort_compare cmp) x (Sorting_Algorithms.sort C xs) =
      Sorting_Algorithms.insort C x (Sorting_Algorithms.sort C xs)"
    by (rule js_insort_eq_insort) (simp add: Cons.prems)
  ultimately show ?case by (simp add: array_sort_Cons)
qed

lemma sort_key_default: "Sorting_Algorithms.sort (key k default) xs = sort_key k xs"
proof -
  have "Sorting_Algorithms.insort (key k default) y ys = insort_key k y ys" for y ys
    by (induction ys) auto
  then show ?thesis by (induction xs) simp_all
qed

lemma sorted_reversed_key:
  "Sorting_Algorithms.sorted (reversed (key k default)) ys \<longleftrightarrow> sorted_wrt (\<lambda>a b. k b \<le> k a) ys"
proof (induction ys rule: induct_list012)
  case (3 x y zs)
  then show ?case by (auto simp: not_less intro: order_trans)
qed simp_all

lemma sort_reversed_key:
  "Sorting_Algorithms.sort (reversed (key k default)) xs = rev (sort_key k (rev xs))"
proof (rule sort_eqI)
  show "mset xs = mset (rev (sort_key k (rev xs)))" by simp
  have "List.sorted (map k (sort_key k (rev xs)))" by simp
  then show "Sorting_Algorithms.sorted (reversed (key k default)) (rev (sort_key k (rev xs)))"
    by (simp add: sorted_reversed_key sorted_wrt_rev sorted_map sorted_wrt_map)
  fix y
  have seg: "(\<lambda>z. compare (reversed (key k default)) y z = Equiv) = (\<lambda>z. k z = k y)"
    by (auto simp: fun_eq_iff)
  have "filter (\<lambda>z. k z = k y) (sort_key k (rev xs)) = filter (\<lambda>z. k z = k y) (rev xs)"
    by (rule sort_key_stable)
  then show "stable_segment (reversed (key k default)) y xs =
      stable_segment (reversed (key k default)) y (rev (sort_key k (rev xs)))"
    unfolding seg by (simp add: rev_filter [symmetric])
qed

lemma array_sort_by_key:
  assumes "\<And>x y. x \<in> set xs \<Longrightarrow> y \<in> set xs \<Longrightarrow>
      (sort_compare cmp x y \<le> 0) = (if asc then k x \<le> k y else k y \<le> k x)"
  shows "array_sort cmp xs = stable_sort_by asc k xs"
proof (cases asc)
  case True
  with assms have "array_sort cmp xs = Sorting_Algorithms.sort (key k default) xs"
    by (intro array_sort_eq_sort) (auto simp: not_less)
  with True show ?thesis by (simp add: stable_sort_by_def sort_key_default)
next
  case False
  with assms have "array_sort cmp xs = Sorting_Algorithms.sort (reversed (key k default)) xs"
    by (intro array_sort_eq_sort) (auto simp: not_less)
  with False show ?thesis by (simp add: stable_sort_by_def sort_reversed_key)
qed

lemma key_collation_le: "(key_collation ck s t \<le> 0) = (ck s \<le> ck t)"
  by (auto simp: key_collation_def)

lemma field_compare_text:
  assumes "\<not> typeof_number (get_field a f)"
  shows "(sort_compare (field_compare env (key_collation ck) f asc) a b \<le> 0) =
    (if asc then ck (field_string env (get_field a f)) \<le> ck (field_string env (get_field b f))
     else ck (field_string env (get_field b f)) \<le> ck (field_string env (get_field a f)))"
  using assms by (simp add: field_compare_def sort_compare_def key_collation_le Let_def)

text \<open>On integer field values the comparator orders by the number.\<close>

lemma numeric_key:
  assumes "\<forall>x\<in>set xs. \<exists>i. get_field x f = JNum (Some i)" "x \<in> set xs" "y \<in> set xs"
  shows "(sort_compare (field_compare env coll f asc) x y \<le> 0) =
    (if asc then field_int f x \<le> field_int f y else field_int f y \<le> field_int f x)"
proof -
  obtain i j where "get_field x f = JNum (Some i)" "get_field y f = JNum (Some j)"
    using assms by blast
  then show ?thesis by (simp add: field_compare_def sort_compare_def field_int_def)
qed

lemma sortByField_by_key:
  assumes "h r = Some xs"
    and "\<And>x y. x \<in> set xs \<Longrightarrow> y \<in> set xs \<Longrightarrow>
      (sort_compare (field_compare env coll f (order_is_asc order)) x y \<le> 0) =
      (if order_is_asc order then k x \<le> k y else k y \<le> k x)"
  shows "sortByField env coll h r f order = Inr (h(r \<mapsto> stable_sort_by (order_is_asc order) k xs), r)"
  using assms(1) array_sort_by_key [OF assms(2)] by (simp add: sortByField_def)

lemmas sort_eval = array_sort_def sort_compare_def field_compare_def get_field_def field_string_def
  nullish_def order_is_asc_def codepoint_collation_def key_collation_def v_obj_def
  person_def jsdoc_data_def

section \<open>Properties of \<open>sortByField\<close>\<close>

text \<open>C13: on an array whose field values are all integral numbers, \<open>sortByField\<close>
  sorts the array in place, stably, ascending by the number when the order
  flag is \<open>"asc"\<close> or absent and descending otherwise, and returns the same
  array.\<close>

theorem sortByField_numeric:
  assumes "h r = Some xs" "\<forall>x\<in>set xs. \<exists>i. get_field x f = JNum (Some i)"
  shows "sortByField env coll h r f order =
    Inr (h(r \<mapsto> stable_sort_by (order_is_asc order) (field_int f) xs), r)"
  using assms(1) by (rule sortByField_by_key) (rule numeric_key [OF assms(2)])

text \<open>C14: on an array whose field values are no numbers, with a collation given
  by sort keys, \<open>sortByField\<close> sorts stably by the collation key of
  \<open>String(value ?? "")\<close>, ascending or descending by the flag.\<close>

theorem sortByField_text:
  assumes "h r = Some xs" "\<forall>x\<in>set xs. \<not> typeof_number (get_field x f)"
  shows "sortByField env (key_collation ck) h r f order =
    Inr (h(r \<mapsto> stable_sort_by (order_is_asc order) (\<lambda>x. ck (field_string env (get_field x f))) xs), r)"
  using assms(1) by (rule sortByField_by_key) (simp add: assms(2) field_compare_text)

text \<open>C15: whatever the field values and the collation, \<open>sortByField\<close> reorders
  the array it is given in place, leaves every other array of the store alone
  and returns the same reference; the sorted array is a permutation of the
  original. Called on something that is not an array it throws a TypeError.\<close>

theorem sortByField_in_place:
  "(h r = None \<longrightarrow> sortByField env coll h r f order = Inl TypeError) \<and>
   (\<forall>xs. h r = Some xs \<longrightarrow>
      (\<exists>ys. sortByField env coll h r f order = Inr (h(r \<mapsto> ys), r) \<and> mset ys = mset xs))"
proof (intro conjI allI impI)
  show "h r = None \<Longrightarrow> sortByField env coll h r f order = Inl TypeError"
    by (simp add: sortByField_def)
  fix xs assume h: "h r = Some xs"
  let ?ys = "array_sort (field_compare env coll f (order_is_asc order)) xs"
  have "sortByField env coll h r f order = Inr (h(r \<mapsto> ?ys), r)"
    using h by (simp add: sortByField_def)
  moreover have "mset ?ys = mset xs" by simp
  ultimately show "\<exists>ys. sortByField env coll h r f order = Inr (h(r \<mapsto> ys), r) \<and> mset ys = mset xs"
    by blast
qed

text \<open>C16: the array is sorted ascending only when the order argument is absent
  or the string \<open>"asc"\<close>; every other value, \<open>"ASC"\<close> and \<open>null\<close> included,
  sorts descending.\<close>

theorem sortByField_order_flag:
  "(order_is_asc order \<longleftrightarrow> order = JUndefined \<or> order = JStr ''asc'') \<and>
   sortByField env coll [0 \<mapsto> map (v_obj o JNum o Some) [1, 3, 2]] 0 ''v'' (JStr ''ASC'') =
     Inr ([0 \<mapsto> map (v_obj o JNum o Some) [3, 2, 1]], 0)"
proof
  show "order_is_asc order \<longleftrightarrow> order = JUndefined \<or> order = JStr ''asc''"
    by (cases order) (auto simp: order_is_asc_def)
  show "sortByField env coll [0 \<mapsto> map (v_obj o JNum o Some) [1, 3, 2]] 0 ''v'' (JStr ''ASC'') =
      Inr ([0 \<mapsto> map (v_obj o JNum o Some) [3, 2, 1]], 0)"
    by (simp add: sortByField_def sort_eval)
qed

section \<open>Witnesses\<close>

theorem sortByField_numeric_witness:
  "sortByField env_za codepoint_collation [0 \<mapsto> jsdoc_data] 0 ''age'' JUndefined =
     Inr ([0 \<mapsto> [person ''Jane'' 22, person ''John'' 25, person ''Bob'' 30]], 0)"
proof -
  have "sortByField env_za codepoint_collation [0 \<mapsto> jsdoc_data] 0 ''age'' JUndefined =
      Inr ([0 \<mapsto> jsdoc_data](0 \<mapsto> stable_sort_by (order_is_asc JUndefined) (field_int ''age'') jsdoc_data), 0)"
    by (rule sortByField_numeric) (simp_all add: sort_eval)
  then show ?thesis by (simp add: sort_eval stable_sort_by_def field_int_def)
qed

theorem sortByField_text_witness:
  "sortByField env_za codepoint_collation [0 \<mapsto> jsdoc_data] 0 ''name'' (JStr ''desc'') =
     Inr ([0 \<mapsto> [person ''John'' 25, person ''Jane'' 22, person ''Bob'' 30]], 0)"
proof -
  have "sortByField env_za (key_collation (\<lambda>s. map of_char s :: nat list)) [0 \<mapsto> jsdoc_data] 0 ''name'' (JStr ''desc'') =
      Inr ([0 \<mapsto> jsdoc_data](0 \<mapsto> stable_sort_by (order_is_asc (JStr ''desc''))
              (\<lambda>x. map of_char (field_string env_za (get_field x ''name'')) :: nat list) jsdoc_data), 0)"
    by (rule sortByField_text) (simp_all add: sort_eval)
  then show ?thesis by (simp add: sort_eval stable_sort_by_def)
qed

theorem sortByField_in_place_witness:
  "(\<exists>ys. sortByField env_za codepoint_collation [0 \<mapsto> jsdoc_data] 0 ''age'' JUndefined =
      Inr ([0 \<mapsto> ys], 0) \<and> mset ys = mset jsdoc_data) \<and>
   sortByField env_za codepoint_collation [0 \<mapsto> jsdoc_data] 1 ''age'' JUndefined = Inl TypeError"
  using sortByField_in_place [of "[0 \<mapsto> jsdoc_data]" 0 env_za codepoint_collation "''age''" JUndefined]
    sortByField_in_place [of "[0 \<mapsto> jsdoc_data]" 1 env_za codepoint_collation "''age''" JUndefined]
  by simp

end
