(* ===== verification/Create_Page.thy ===== *)
theory Create_Page
  imports Date_Format
begin

text \<open>
  The loader of the task creation page, \<open>load()\<close> of
  \<open>src/src/routes/create/+page.js\<close>. It resolves to a page-data object whose
  \<open>task\<close> is the default new task; the model is the resolved value. The task
  record extends \<open>date_range\<close>, so a task is itself an argument of
  \<open>displayDate\<close>, which destructures \<open>due_date\<close> and \<open>start_date\<close> from it.
  The fields typed \<open>string | Date | number | null\<close> or left \<open>undefined\<close> are
  JavaScript values (\<open>jsval\<close>); the others have the type of their default.
\<close>

record task = date_range +
  name :: string
  description :: string
  completed :: int
  repeat_specific_days :: "jsval list"
  completed_at :: jsval
  important :: bool
  urgent :: bool
  repeat_interval :: string
  repeat_interval_number :: int
  archived :: bool
  category_id :: jsval

record page_data =
  task :: task

definition load :: page_data where
  "load = \<lparr>task = \<lparr>due_date = JNull, start_date = JNull,
      name = '''', description = '''', completed = 0, repeat_specific_days = [],
      completed_at = JNull, important = False, urgent = False, repeat_interval = '''',
      repeat_interval_number = 1, archived = False, category_id = JUndefined\<rparr>\<rparr>"

end
