(* ===== verification/Task_Order.thy ===== *)
theory Task_Order
  imports Sort_By_Field Pretty_Date "HOL-Library.Product_Lexorder"
begin

text \<open>
  Sorting tasks by their stored due dates: \<open>formatDate\<close> (Date_Format) writes a
  due date as \<open>YYYY-MM-DD\<close>, and \<open>sortByField\<close> (Sort_By_Field) compares such
  texts with \<open>localeCompare\<close>. The theory proves that for four-digit years the
  code-point order of these texts is the order of the local calendar days
  (\<open>en_ca_text_less\<close>: fixed-width decimals compare like numbers, and the
  lexicographic order of (year, month, date) is the order of \<open>MakeDay\<close>), and
  from it that sorting such tasks by \<open>"due_date"\<close> orders them by date.
\<close>

section \<open>Definitions\<close>

text \<open>The code points of a text, the key of the code-point collation.\<close>

definition code_points :: "string \<Rightarrow> nat list" where
  "code_points s = map of_char s"

text \<open>A field value written by \<open>formatDate\<close> for a valid date in a four-digit
  local year.\<close>

definition stored_date :: "date_env \<Rightarrow> jsval \<Rightarrow> bool" where
  "stored_date env w \<longleftrightarrow> (\<exists>v t. truthy v \<and> new_date env v = Some t \<and> four_digit_year env t \<and> w = formatDate env v)"

text \<open>A task object with a name and a due date, for the instances.\<close>

definition due_task :: "string \<Rightarrow> jsobj" where
  "due_task d = [(''name'', JStr ''task''), (''due_date'', JStr d)]"

section \<open>Code-point order of decimal texts\<close>

lemma less_append_same_length:
  fixes xs ys :: "'a::linorder list"
  assumes "length xs = length ys"
  shows "xs @ us < ys @ vs \<longleftrightarrow> xs < ys \<or> (xs = ys \<and> us < vs)"
  using assms
proof (induction xs arbitrary: ys)
  case Nil
  then show ?case by simp
next
  case (Cons x xs)
  then obtain y ys' where "ys = y # ys'" "length xs = length ys'" by (cases ys) auto
  with Cons.IH show ?case by (auto simp: list_less_def)
qed

lemma Cons_less_Cons: "(x # xs < y # ys) \<longleftrightarrow> x < y \<or> (x = y \<and> xs < ys)"
  by (simp add: list_less_def)

lemma digit_pair_less:
  fixes q1 q2 r1 r2 :: nat
  assumes "r1 < 10" "r2 < 10"
  shows "10 * q1 + r1 < 10 * q2 + r2 \<longleftrightarrow> q1 < q2 \<or> (q1 = q2 \<and> r1 < r2)"
proof (cases q1 q2 rule: linorder_cases)
  case less
  then show ?thesis using assms by linarith
next
  case equal
  then show ?thesis by simp
next
  case greater
  then show ?thesis using assms by linarith
qed

lemma div10_less_iff: "(a::nat) < b \<longleftrightarrow> a div 10 < b div 10 \<or> (a div 10 = b div 10 \<and> a mod 10 < b mod 10)"
  using digit_pair_less [of "a mod 10" "b mod 10" "a div 10" "b div 10"] by simp
lemma of_char_digit_char: "n < 10 \<Longrightarrow> (of_char (digit_char n) :: nat) = n + 48"
proof -
  assume "n < 10"
  then have "n \<in> {0, 1, 2, 3, 4, 5, 6, 7, 8, 9}" by auto
  then show ?thesis by (auto simp: digit_char_def)
qed

lemma code_points_dec_fixed_less:
  "a < 10 ^ w \<Longrightarrow> b < 10 ^ w \<Longrightarrow> code_points (dec_fixed w a) < code_points (dec_fixed w b) \<longleftrightarrow> a < b"
proof (induction w arbitrary: a b)
  case 0
  then show ?case by (simp add: code_points_def)
next
  case (Suc w)
  have a: "a div 10 < 10 ^ w" and b: "b div 10 < 10 ^ w" using Suc.prems by auto
  have "a < b \<longleftrightarrow> a div 10 < b div 10 \<or> (a div 10 = b div 10 \<and> a mod 10 < b mod 10)"
    by (rule div10_less_iff)
  moreover have "[of_char (digit_char (a mod 10)) :: nat] < [of_char (digit_char (b mod 10))] \<longleftrightarrow>
      a mod 10 < b mod 10"
    by (simp add: of_char_digit_char list_less_def)
  moreover have "code_points (dec_fixed w (a div 10)) = code_points (dec_fixed w (b div 10)) \<longleftrightarrow>
      a div 10 = b div 10"
  proof (cases w)
    case 0
    then show ?thesis using a b by simp
  next
    case (Suc v)
    then show ?thesis
      using dec_fixed_inj [of w "a div 10" "b div 10"] a b
      by (simp add: code_points_def inj_map_eq_map [OF inj_of_char])
  qed
  ultimately show ?case
    using Suc.IH [OF a b]
    by (simp add: code_points_def less_append_same_length)
qed

section \<open>Lexicographic order of calendar fields\<close>

lemma month_start_mono:
  assumes l: "0 \<le> l" "l \<le> 1" and m: "0 \<le> m1" "m1 < m2" "m2 \<le> 11"
  shows "month_start l m1 + month_length l m1 \<le> month_start l m2"
proof -
  have "m1 \<in> {0, 1, 2, 3, 4, 5, 6, 7, 8, 9, 10, 11}" using m by (intro month_range_cases) simp_all
  moreover have "m2 \<in> {0, 1, 2, 3, 4, 5, 6, 7, 8, 9, 10, 11}" using m by (intro month_range_cases) simp_all
  ultimately show ?thesis using l m
    by (elim insertE emptyE; simp add: month_start_def month_length_def)
qed

lemma make_day_lex_less:
  assumes v1: "0 \<le> m1" "m1 \<le> 11" "1 \<le> d1" "d1 \<le> days_in_month y1 m1"
    and v2: "0 \<le> m2" "m2 \<le> 11" "1 \<le> d2" "d2 \<le> days_in_month y2 m2"
    and lt: "(y1, m1, d1) < (y2, m2, d2)"
  shows "make_day y1 m1 d1 < make_day y2 m2 d2"
proof -
  note w1 = make_day_within_year [OF v1] and w2 = make_day_within_year [OF v2]
  consider "y1 < y2" | "y1 = y2" "m1 < m2" | "y1 = y2" "m1 = m2" "d1 < d2"
    using lt by (auto simp: less_prod_def le_less)
  then show ?thesis
  proof cases
    case 1
    then have "day_from_year (y1 + 1) \<le> day_from_year y2" by simp
    then show ?thesis using w1(2) w2(1) by linarith
  next
    case 2
    have "month_start (leap_flag y1) m1 + month_length (leap_flag y1) m1 \<le> month_start (leap_flag y1) m2"
      using month_start_mono [OF leap_flag_range [of y1] v1(1) 2(2) v2(2)] .
    then show ?thesis using 2 w1(3) w2(3) v1(4) v2(3) by (simp add: days_in_month_def)
  next
    case 3
    then show ?thesis using w1(3) w2(3) by simp
  qed
qed

lemma local_ymd_valid:
  "0 \<le> month_from_time (local_time env t)" "month_from_time (local_time env t) \<le> 11"
  "1 \<le> date_from_time (local_time env t)"
  "date_from_time (local_time env t) \<le>
     days_in_month (year_from_time (local_time env t)) (month_from_time (local_time env t))"
  using month_from_time_range date_from_time_range by blast+

lemma local_ymd_less_iff: "local_ymd env t < local_ymd env u \<longleftrightarrow> local_day env t < local_day env u"
proof -
  have mt: "make_day (year_from_time (local_time env t)) (month_from_time (local_time env t))
      (date_from_time (local_time env t)) = local_day env t"
    and mu: "make_day (year_from_time (local_time env u)) (month_from_time (local_time env u))
      (date_from_time (local_time env u)) = local_day env u"
    by (simp_all add: make_day_of_time local_day_def)
  have fwd: "local_ymd env a < local_ymd env b \<Longrightarrow> local_day env a < local_day env b" for a b
    using make_day_lex_less [OF local_ymd_valid [of env a] local_ymd_valid [of env b]]
    by (simp add: make_day_of_time local_day_def)
  show ?thesis
  proof
    assume "local_day env t < local_day env u"
    moreover have "\<not> local_ymd env u < local_ymd env t"
      using fwd [of u t] calculation by linarith
    moreover have "local_ymd env u \<noteq> local_ymd env t"
      using local_ymd_eq_iff [of env u t] calculation(1) by auto
    ultimately show "local_ymd env t < local_ymd env u" by auto
  qed (rule fwd)
qed

section \<open>The order of \<open>formatDate\<close> texts\<close>

lemma dec_fixed_int_cmp:
  fixes a b :: int
  assumes "0 < w" "0 \<le> a" "0 \<le> b" "a < 10 ^ w" "b < 10 ^ w"
  shows "(map of_char (dec_fixed w (nat a)) :: nat list) < map of_char (dec_fixed w (nat b)) \<longleftrightarrow> a < b"
    and "(map of_char (dec_fixed w (nat a)) :: nat list) = map of_char (dec_fixed w (nat b)) \<longleftrightarrow> a = b"
proof -
  have n: "nat a < 10 ^ w" "nat b < 10 ^ w"
    using assms by (simp_all add: nat_less_iff)
  show "(map of_char (dec_fixed w (nat a)) :: nat list) < map of_char (dec_fixed w (nat b)) \<longleftrightarrow> a < b"
    using code_points_dec_fixed_less [OF n] assms by (auto simp: code_points_def)
  show "(map of_char (dec_fixed w (nat a)) :: nat list) = map of_char (dec_fixed w (nat b)) \<longleftrightarrow> a = b"
    using dec_fixed_inj [OF assms(1) n] assms by (simp add: inj_map_eq_map [OF inj_of_char] eq_nat_nat_iff)
qed

lemma local_ymd_ranges:
  assumes "four_digit_year env t"
  shows "0 \<le> year_from_time (local_time env t)" "year_from_time (local_time env t) < 10 ^ 4"
    "0 \<le> month_from_time (local_time env t) + 1" "month_from_time (local_time env t) + 1 < 10 ^ 2"
    "0 \<le> date_from_time (local_time env t)" "date_from_time (local_time env t) < 10 ^ 2"
  using assms local_ymd_valid [of env t] days_in_month_le_31 [of "year_from_time (local_time env t)"
      "month_from_time (local_time env t)"]
  by (simp_all add: four_digit_year_def)

lemma en_ca_text_less:
  assumes t: "four_digit_year env t" and u: "four_digit_year env u"
  shows "(map of_char (en_ca env (Some t)) :: nat list) < map of_char (en_ca env (Some u)) \<longleftrightarrow>
    local_day env t < local_day env u"
proof -
  note rt = local_ymd_ranges [OF t] and ru = local_ymd_ranges [OF u]
  have et: "en_ca env (Some t) = dec_fixed 4 (nat (year_from_time (local_time env t))) @ ''-'' @
      dec_fixed 2 (nat (month_from_time (local_time env t) + 1)) @ ''-'' @
      dec_fixed 2 (nat (date_from_time (local_time env t)))"
    using t by (simp add: four_digit_year_def en_ca_four_digit_year)
  have eu: "en_ca env (Some u) = dec_fixed 4 (nat (year_from_time (local_time env u))) @ ''-'' @
      dec_fixed 2 (nat (month_from_time (local_time env u) + 1)) @ ''-'' @
      dec_fixed 2 (nat (date_from_time (local_time env u)))"
    using u by (simp add: four_digit_year_def en_ca_four_digit_year)
  have "(map of_char (en_ca env (Some t)) :: nat list) < map of_char (en_ca env (Some u)) \<longleftrightarrow>
      local_ymd env t < local_ymd env u"
    unfolding et eu
    by (simp add: less_append_same_length dec_fixed_int_cmp [OF _ rt(1) ru(1) rt(2) ru(2)]
        dec_fixed_int_cmp [OF _ rt(3) ru(3) rt(4) ru(4)] dec_fixed_int_cmp [OF _ rt(5) ru(5) rt(6) ru(6)]
        less_prod_def le_less Cons_less_Cons) auto
  also have "\<dots> \<longleftrightarrow> local_day env t < local_day env u"
    by (rule local_ymd_less_iff)
  finally show ?thesis .
qed

lemma en_ca_text_le:
  assumes "four_digit_year env t" "four_digit_year env u"
  shows "(map of_char (en_ca env (Some t)) :: nat list) \<le> map of_char (en_ca env (Some u)) \<longleftrightarrow>
    local_day env t \<le> local_day env u"
  using en_ca_text_less [OF assms(2,1)] by (simp add: not_less [symmetric])

lemma codepoint_collation_neg: "codepoint_collation a b < 0 \<longleftrightarrow> (map of_char a :: nat list) < map of_char b"
  by (simp add: codepoint_collation_def key_collation_def)

lemma stored_date_text:
  assumes "stored_date env w"
  obtains t where "w = JStr (en_ca env (Some t))" "four_digit_year env t"
    "new_date env w = Some (local_day env t * ms_per_day)"
  using assms parse_en_ca by (fastforce simp: stored_date_def formatDate_def four_digit_year_def)

section \<open>Sorting tasks by their stored due dates\<close>

text \<open>C20: for valid dates in four-digit local years, the texts \<open>formatDate\<close>
  returns compare in code-point order exactly as the local calendar days of the
  dates compare.\<close>

theorem formatDate_text_order:
  assumes "truthy u" "new_date env u = Some t" "four_digit_year env t"
    and "truthy v" "new_date env v = Some s" "four_digit_year env s"
  shows "\<exists>a b. formatDate env u = JStr a \<and> formatDate env v = JStr b \<and>
    (codepoint_collation a b < 0 \<longleftrightarrow> local_day env t < local_day env s)"
  using assms en_ca_text_less [of env t s] by (simp add: formatDate_def codepoint_collation_neg)

text \<open>C21: an array of tasks whose \<open>due_date\<close> fields hold texts that
  \<open>formatDate\<close> produced (valid dates, four-digit years), sorted by
  \<open>sortByField\<close> on \<open>"due_date"\<close> under code-point collation, is ordered by the
  dates the texts denote, stably, ascending or descending by the flag.\<close>

theorem sortByField_due_dates:
  assumes "h r = Some xs" "\<forall>x\<in>set xs. stored_date env (get_field x ''due_date'')"
  shows "sortByField env codepoint_collation h r ''due_date'' order =
    Inr (h(r \<mapsto> stable_sort_by (order_is_asc order)
                 (\<lambda>x. the (new_date env (get_field x ''due_date''))) xs), r)"
  using assms(1)
proof (rule sortByField_by_key)
  fix x y assume "x \<in> set xs" "y \<in> set xs"
  with assms(2) obtain tx ty where
    x: "get_field x ''due_date'' = JStr (en_ca env (Some tx))" "four_digit_year env tx"
      "new_date env (get_field x ''due_date'') = Some (local_day env tx * ms_per_day)" and
    y: "get_field y ''due_date'' = JStr (en_ca env (Some ty))" "four_digit_year env ty"
      "new_date env (get_field y ''due_date'') = Some (local_day env ty * ms_per_day)"
    by (metis stored_date_text)
  have "local_day env tx * ms_per_day \<le> local_day env ty * ms_per_day \<longleftrightarrow> local_day env tx \<le> local_day env ty"
    "local_day env ty * ms_per_day \<le> local_day env tx * ms_per_day \<longleftrightarrow> local_day env ty \<le> local_day env tx"
    by (simp_all add: ms_per_day_def)
  then show "(sort_compare (field_compare env codepoint_collation ''due_date'' (order_is_asc order)) x y \<le> 0) =
      (if order_is_asc order then the (new_date env (get_field x ''due_date'')) \<le> the (new_date env (get_field y ''due_date''))
       else the (new_date env (get_field y ''due_date'')) \<le> the (new_date env (get_field x ''due_date'')))"
    using x y en_ca_text_le [OF x(2) y(2)] en_ca_text_le [OF y(2) x(2)]
    by (simp add: codepoint_collation_def field_compare_text field_string_def nullish_def)
qed

section \<open>Witnesses\<close>

theorem formatDate_text_order_witness:
  "\<exists>a b. formatDate env_za (JStr ''2024-03-15'') = JStr a \<and> formatDate env_za (JStr ''2024-04-01'') = JStr b \<and>
    (codepoint_collation a b < 0 \<longleftrightarrow> local_day env_za 1710460800000 < local_day env_za 1711929600000)"
proof -
  have h: "truthy (JStr ''2024-03-15'')" "new_date env_za (JStr ''2024-03-15'') = Some 1710460800000"
    "four_digit_year env_za 1710460800000"
    "truthy (JStr ''2024-04-01'')" "new_date env_za (JStr ''2024-04-01'') = Some 1711929600000"
    "four_digit_year env_za 1711929600000"
    by (simp_all add: date_eval four_digit_year_def)
  show ?thesis by (rule formatDate_text_order [OF h])
qed

lemma stored_date_iso:
  assumes "truthy (JStr s)" "new_date env (JStr s) = Some t" "four_digit_year env t"
    "formatDate env (JStr s) = JStr s"
  shows "stored_date env (JStr s)"
  using assms unfolding stored_date_def by metis

theorem sortByField_due_dates_witness:
  "sortByField env_za codepoint_collation
     [0 \<mapsto> [due_task ''2024-04-01'', due_task ''2024-03-15'', due_task ''2023-12-31'']] 0 ''due_date'' JUndefined =
   Inr ([0 \<mapsto> [due_task ''2023-12-31'', due_task ''2024-03-15'', due_task ''2024-04-01'']], 0)"
proof -
  let ?xs = "[due_task ''2024-04-01'', due_task ''2024-03-15'', due_task ''2023-12-31'']"
  have s1: "stored_date env_za (JStr ''2024-04-01'')"
    by (rule stored_date_iso [where t = 1711929600000]) (simp_all add: date_eval four_digit_year_def formatDate_def)
  have s2: "stored_date env_za (JStr ''2024-03-15'')"
    by (rule stored_date_iso [where t = 1710460800000]) (simp_all add: date_eval four_digit_year_def formatDate_def)
  have s3: "stored_date env_za (JStr ''2023-12-31'')"
    by (rule stored_date_iso [where t = 1703980800000]) (simp_all add: date_eval four_digit_year_def formatDate_def)
  have "sortByField env_za codepoint_collation [0 \<mapsto> ?xs] 0 ''due_date'' JUndefined =
      Inr ([0 \<mapsto> ?xs](0 \<mapsto> stable_sort_by (order_is_asc JUndefined)
              (\<lambda>x. the (new_date env_za (get_field x ''due_date''))) ?xs), 0)"
    by (rule sortByField_due_dates) (simp_all add: s1 s2 s3 due_task_def get_field_def)
  then show ?thesis by (simp add: stable_sort_by_def due_task_def get_field_def order_is_asc_def date_eval)
qed

end
