(* ===== verification/Spec2Isabelle.thy ===== *)
theory Spec2Isabelle
  imports Pretty_Date Sort_By_Field Create_Page Task_Order
begin

text \<open>
  A verification development for the taskly helpers: the date formatting and
  sorting functions of \<open>src/src/lib/index.js\<close> and the page loader of
  \<open>src/src/routes/create/+page.js\<close>, modelled as a shallow embedding in HOL.

  \<^bold>\<open>The program.\<close> Four date helpers turn a date-like value (a timestamp, a
  \<open>Date\<close>, a date string, or a falsy "no date") into text:
  \<open>displayDate\<close> (a date or a date range, Afrikaans month abbreviations),
  \<open>displayDateShort\<close>, \<open>formatDate\<close> (a calendar string \<open>YYYY-MM-DD\<close>, or the
  number \<open>0\<close> for no date) and \<open>displayPrettyDate\<close> (a relative label: today,
  tomorrow, this week, ...), which calls \<open>formatDate\<close> and re-parses its output.
  \<open>sortByField\<close> sorts an array of records in place by one field, and \<open>load\<close>
  returns the default task of the creation form, whose \<open>due_date\<close> and
  \<open>start_date\<close> are what the date helpers display. Everything rests on the
  JavaScript platform: truthiness, the \<open>Date\<close> built-ins with their calendar
  arithmetic and string parser, \<open>toLocaleDateString\<close>, \<open>Array.prototype.sort\<close>
  and \<open>localeCompare\<close>.

  \<^bold>\<open>Theories and what they model.\<close>
  \<^item> \<open>Prelude\<close>: the evaluation-rule collections \<open>calendar_simps\<close> and
    \<open>js_simps\<close>, decimal printing (\<open>nat_dec\<close>, \<open>dec_fixed\<close>) and parsing
    (\<open>digits_val\<close>) with their round trips.
  \<^item> \<open>Calendar\<close>: ECMA-262 21.4.1, the time arithmetic (\<open>day\<close>,
    \<open>day_from_year\<close>, \<open>year_from_time\<close>, \<open>month_from_time\<close>,
    \<open>date_from_time\<close>, \<open>week_day\<close>, \<open>make_day\<close>, \<open>make_date\<close>, \<open>time_clip\<close>).
    \<open>YearFromTime\<close> is a terminating search (\<open>year_search\<close>, measure: the
    distance in days to the year), proved to return the standard's year
    (\<open>year_from_time_spec\<close>); the round trips \<open>make_day_of_time\<close> and
    \<open>time_of_make_day\<close> are proved.
  \<^item> \<open>JS_Value\<close>: JavaScript values (\<open>jsval\<close>), \<open>ToBoolean\<close> (\<open>truthy\<close>),
    numbers with \<open>NaN\<close> as \<open>None\<close>, \<open>===\<close>.
  \<^item> \<open>JS_Date\<close>: the host (\<open>date_env\<close>: a fixed UTC offset and the
    implementation-defined parser fallback), \<open>new Date(v)\<close> with the ISO date
    time string parser, the local getters (with their ranges,
    \<open>local_getters_bounds\<close>), \<open>setHours\<close>, \<open>setDate\<close>, \<open>Date.prototype.toString\<close>.
  \<^item> \<open>Intl\<close>: \<open>toLocaleDateString\<close> for af-ZA and en-CA with CLDR patterns.
  \<^item> \<open>Date_Format\<close>: \<open>displayDate\<close>, \<open>displayDateShort\<close>, \<open>formatDate\<close>
    (index.js lines 6--71): every branch of \<open>displayDate\<close>, the round trip of
    \<open>formatDate\<close> through the date parser, its width, its equality test, and the
    behaviour of stored date-only strings east of UTC (the stored date) and west
    of UTC (the day before).
  \<^item> \<open>Pretty_Date\<close>: \<open>displayPrettyDate\<close> (lines 73--123). The seven clock reads
    are a function \<open>clk\<close> from the index of the read to its value; the contract
    \<open>pretty_spec\<close> gives the specification's label for a local day, and
    \<open>displayPrettyDate_refines_spec\<close> shows the code meets it when the clock is
    read at one instant, east of UTC and after the zone's offset past midnight.
    Two general theorems show what happens outside these conditions: before
    the offset past midnight the Saturday of the week is not "this week"
    (\<open>displayPrettyDate_week_edge\<close>), and west of UTC a stored date is "today"
    on the day before it (\<open>displayPrettyDate_west_shift\<close>); an unparseable date
    is "Later" (\<open>displayPrettyDate_invalid_later\<close>).
  \<^item> \<open>Sort_By_Field\<close>: \<open>sortByField\<close> (lines 147--160) over a store of arrays,
    with its comparator \<open>field_compare\<close>, \<open>SortCompare\<close> and a stable
    insertion sort for \<open>Array.prototype.sort\<close> (\<open>array_sort\<close>). The sort is
    shown equal to the library's stable sort by a key (\<open>Sorting_Algorithms\<close>,
    \<open>sort_key\<close>) whenever the comparator orders the elements by a key, which
    gives the numeric and the text cases; the in-place update of the argument
    array by a permutation and the meaning of the order flag are proved.
  \<^item> \<open>Create_Page\<close>: \<open>load\<close>, its page data and the task record, which extends
    the \<open>date_range\<close> record that \<open>displayDate\<close> takes.
  \<^item> \<open>Task_Order\<close>: \<open>formatDate\<close> and \<open>sortByField\<close> together. The code-point
    order of \<open>formatDate\<close> texts is the order of the local days they denote
    (fixed-width decimals compare like numbers, and the lexicographic order of
    year, month and date is the order of \<open>MakeDay\<close>), so sorting tasks by their
    stored \<open>due_date\<close> text sorts them by date.

  \<^bold>\<open>Bounds and parameters.\<close> The host's zone offset is a parameter; the
  refinement of \<open>displayPrettyDate\<close> needs an offset in \<open>[0, 1 day)\<close>
  (\<open>east_zone\<close>), four-digit local years (\<open>four_digit_year\<close>: the date time
  string format \<open>formatDate\<close>'s output is re-parsed in requires four digits) and
  clock readings two days inside the range of time values (so that the
  timestamps it builds are neither clipped nor the falsy \<open>0\<close>). The collation of
  \<open>localeCompare\<close> is a parameter; the text-sorting theorem takes it given by
  sort keys (\<open>key_collation\<close>), and the instances use code-point order, which
  agrees with ICU's root collation on the ASCII letters and digits they use.
  No fuel is used: every function of the model is total.

  \<^bold>\<open>Not modelled.\<close> Daylight-saving time (the offset is fixed); expanded
  six-digit years in date strings; numbers that are not integers, and the
  rounding of doubles; the implementation-defined fallback date parser and the
  host collation beyond being parameters; the order \<open>Array.prototype.sort\<close>
  returns for an inconsistent comparator, which the standard leaves to the
  implementation (\<open>array_sort\<close> is one admissible choice, and no property
  depends on it beyond the result being a permutation); object identity of the
  array elements (records are compared by value); the \<open>Task\<close> type of
  \<open>$lib/DB/DB.js\<close>, which is not part of the sources.
\<close>

end
